theory Spec2Isabelle
  imports Complex_Main "HOL-Library.AList" "HOL-Library.Char_ord" "HOL-Library.List_Lexorder"
    "HOL-Library.Sublist" "HOL-Library.Word"
begin

section \<open>Python values and exceptions\<close>

text \<open>
  The embedding follows \<^verbatim>\<open>src/inference.py\<close>. Its conventions:
  \<^item> A Python \<^verbatim>\<open>float\<close> is a real number: infinities and NaN are outside the
    model, and so is the rounding of float arithmetic. Python's \<^verbatim>\<open>int\<close> is \<open>int\<close>; the
    conversion \<^verbatim>\<open>float(n)\<close> of an integer rounds to the nearest double and raises
    \<^verbatim>\<open>OverflowError\<close> when there is none, and the model keeps both.
  \<^item> A Python \<^verbatim>\<open>dict\<close> with string keys is an association list in insertion order,
    read with \<open>map_of\<close> and written with \<open>AList.update\<close> (an existing key keeps its
    place, a new key goes to the end).
  \<^item> A Python \<^verbatim>\<open>str\<close> is a \<open>string\<close>, one \<open>char\<close> per code point below 256.
  \<^item> An exception is a value of \<open>exn\<close>; a computation that may raise returns
    \<open>exn + 'a\<close>, with \<open>Inl\<close> for the raise. All exceptions of the model derive from
    Python's \<^verbatim>\<open>Exception\<close>, so \<^verbatim>\<open>except Exception\<close> catches each of them, while
    \<^verbatim>\<open>except TypeError\<close> catches only \<open>TypeError\<close>.
\<close>

datatype exn =
    TypeError string
  | RuntimeError string
  | OverflowError string
  | OtherException string string

text \<open>\<open>OtherException cls msg\<close> is an exception of any other class \<open>cls\<close> that derives
  from \<^verbatim>\<open>Exception\<close> and not from \<^verbatim>\<open>TypeError\<close>. \<open>exn_str\<close> is \<^verbatim>\<open>str(e)\<close>.\<close>

fun exn_str :: "exn \<Rightarrow> string" where
  "exn_str (TypeError m) = m"
| "exn_str (RuntimeError m) = m"
| "exn_str (OverflowError m) = m"
| "exn_str (OtherException c m) = m"

fun is_TypeError :: "exn \<Rightarrow> bool" where
  "is_TypeError (TypeError m) = True"
| "is_TypeError e = False"

text \<open>
  The values a reply of the remote service can be: the JSON values, and \<open>PObj\<close>, an
  instance of an SDK class given by its attributes. An object is a finite tree: it does
  not contain itself.
\<close>

datatype pyval =
    PNone
  | PBool bool
  | PInt int
  | PFloat real
  | PStr string
  | PList "pyval list"
  | PDict "(string \<times> pyval) list"
  | PObj "(string \<times> pyval) list"

definition bind_exn :: "exn + 'a \<Rightarrow> ('a \<Rightarrow> exn + 'b) \<Rightarrow> exn + 'b" where
  "bind_exn m f = (case m of Inl e \<Rightarrow> Inl e | Inr x \<Rightarrow> f x)"

text \<open>Python's \<^verbatim>\<open>a and b\<close> on two tests: \<open>b\<close> is evaluated only when \<open>a\<close> is true.\<close>

definition py_and :: "exn + bool \<Rightarrow> exn + bool \<Rightarrow> exn + bool" where
  "py_and a b = bind_exn a (\<lambda>x. if x then b else Inr False)"

text \<open>Truth value of a value, as \<^verbatim>\<open>if payload:\<close> and \<^verbatim>\<open>x or y\<close> test it.\<close>

fun py_truthy :: "pyval \<Rightarrow> bool" where
  "py_truthy PNone = False"
| "py_truthy (PBool b) = b"
| "py_truthy (PInt n) = (n \<noteq> 0)"
| "py_truthy (PFloat x) = (x \<noteq> 0)"
| "py_truthy (PStr s) = (s \<noteq> [])"
| "py_truthy (PList xs) = (xs \<noteq> [])"
| "py_truthy (PDict d) = (d \<noteq> [])"
| "py_truthy (PObj attrs) = True"

fun py_type_name :: "pyval \<Rightarrow> string" where
  "py_type_name PNone = ''NoneType''"
| "py_type_name (PBool b) = ''bool''"
| "py_type_name (PInt n) = ''int''"
| "py_type_name (PFloat x) = ''float''"
| "py_type_name (PStr s) = ''str''"
| "py_type_name (PList xs) = ''list''"
| "py_type_name (PDict d) = ''dict''"
| "py_type_name (PObj attrs) = ''object''"

definition quoted :: "string \<Rightarrow> string" where
  "quoted s = CHR 0x27 # s @ [CHR 0x27]"

text \<open>
  \<^verbatim>\<open>hasattr(x, name)\<close> and \<^verbatim>\<open>getattr(x, name, default)\<close>, for a name such as
  \<^verbatim>\<open>"response"\<close> that is no attribute of the built-in types.
\<close>

fun py_hasattr :: "pyval \<Rightarrow> string \<Rightarrow> bool" where
  "py_hasattr (PObj attrs) name = (map_of attrs name \<noteq> None)"
| "py_hasattr x name = False"

fun py_getattr_default :: "pyval \<Rightarrow> string \<Rightarrow> pyval \<Rightarrow> pyval" where
  "py_getattr_default (PObj attrs) name dflt =
     (case map_of attrs name of Some v \<Rightarrow> v | None \<Rightarrow> dflt)"
| "py_getattr_default x name dflt = dflt"

text \<open>
  \<^verbatim>\<open>key in container\<close> for a string key: key membership in a dict, substring test in a
  string, element test in a list, \<^verbatim>\<open>TypeError\<close> on a value that is not iterable.
\<close>

fun py_in :: "string \<Rightarrow> pyval \<Rightarrow> exn + bool" where
  "py_in k (PDict d) = Inr (map_of d k \<noteq> None)"
| "py_in k (PStr s) = Inr (sublist k s)"
| "py_in k (PList xs) = Inr (PStr k \<in> set xs)"
| "py_in k x =
     Inl (TypeError (''argument of type '' @ quoted (py_type_name x) @ '' is not iterable''))"

text \<open>\<^verbatim>\<open>container[key]\<close> for a string key.\<close>

fun py_getitem :: "pyval \<Rightarrow> string \<Rightarrow> exn + pyval" where
  "py_getitem (PDict d) k =
     (case map_of d k of Some v \<Rightarrow> Inr v | None \<Rightarrow> Inl (OtherException ''KeyError'' (quoted k)))"
| "py_getitem (PStr s) k =
     Inl (TypeError (''string indices must be integers, not '' @ quoted ''str''))"
| "py_getitem (PList xs) k =
     Inl (TypeError ''list indices must be integers or slices, not str'')"
| "py_getitem x k =
     Inl (TypeError (quoted (py_type_name x) @ '' object is not subscriptable''))"

fun isinstance_dict :: "pyval \<Rightarrow> bool" where
  "isinstance_dict (PDict d) = True"
| "isinstance_dict x = False"

fun isinstance_str :: "pyval \<Rightarrow> bool" where
  "isinstance_str (PStr s) = True"
| "isinstance_str x = False"

text \<open>\<^verbatim>\<open>isinstance(x, (int, float))\<close>: \<^verbatim>\<open>bool\<close> is a subclass of \<^verbatim>\<open>int\<close>.\<close>

fun isinstance_int_float :: "pyval \<Rightarrow> bool" where
  "isinstance_int_float (PInt n) = True"
| "isinstance_int_float (PBool b) = True"
| "isinstance_int_float (PFloat x) = True"
| "isinstance_int_float x = False"

text \<open>
  \<^verbatim>\<open>float(n)\<close> of an integer is the double nearest to \<open>n\<close>, a tie going to the even
  mantissa. \<open>bit_length\<close> is \<^verbatim>\<open>int.bit_length\<close>. \<open>round_half_even a\<close> keeps the 53
  leading bits of the magnitude \<open>a\<close>: with \<open>s\<close> bits to drop, the mantissa \<open>q\<close> is
  rounded up when the dropped bits \<open>r\<close> are more than half a unit of \<open>q\<close>, or exactly
  half and \<open>q\<close> is odd. The result is again an integer, read as a real number.
\<close>

fun bit_length :: "nat \<Rightarrow> nat" where
  "bit_length n = (if n = 0 then 0 else Suc (bit_length (n div 2)))"

declare bit_length.simps [simp del]

definition round_half_even :: "nat \<Rightarrow> nat" where
  "round_half_even a =
     (let e = bit_length a
      in if e \<le> 53 then a
         else
           (let s = e - 53; q = a div 2 ^ s; r = a mod 2 ^ s; half = 2 ^ (s - 1)
            in (if half < r \<or> (r = half \<and> odd q) then q + 1 else q) * 2 ^ s))"

definition float_of_int :: "int \<Rightarrow> real" where
  "float_of_int n =
     (if n < 0 then - real (round_half_even (nat (- n))) else real (round_half_even (nat n)))"

text \<open>
  \<^verbatim>\<open>float(x)\<close> of a number. An integer converts when it rounds to a finite double, that
  is below \<open>2^1024 - 2^970\<close> in magnitude; a larger one raises \<^verbatim>\<open>OverflowError\<close>. The
  source applies \<^verbatim>\<open>float\<close> to numbers only (the last equation is never reached from it).
\<close>

definition float_int_limit :: int where
  "float_int_limit = 2 ^ 1024 - 2 ^ 970"

fun py_float :: "pyval \<Rightarrow> exn + real" where
  "py_float (PInt n) =
     (if \<bar>n\<bar> < float_int_limit then Inr (float_of_int n)
      else Inl (OverflowError ''int too large to convert to float''))"
| "py_float (PBool b) = Inr (if b then 1.0 else 0.0)"
| "py_float (PFloat x) = Inr x"
| "py_float x = Inl (TypeError ''float() argument must be a string or a real number'')"

section \<open>Response normalisation\<close>

text \<open>
  \<^verbatim>\<open>_to_dict\<close>. The decoder \<^verbatim>\<open>json.loads\<close> belongs to Python's standard library and is
  the parameter \<open>loads\<close>: it returns the decoded value or raises.
\<close>

function to_dict :: "(string \<Rightarrow> exn + pyval) \<Rightarrow> pyval \<Rightarrow> exn + pyval" where
  "to_dict loads maybe_obj =
     (if py_hasattr maybe_obj ''response''
      then to_dict loads (py_getattr_default maybe_obj ''response'' PNone)
      else if isinstance_dict maybe_obj then Inr maybe_obj
      else (case maybe_obj of
              PStr s \<Rightarrow> (case loads s of Inl e \<Rightarrow> Inr PNone | Inr v \<Rightarrow> Inr v)
            | _ \<Rightarrow> Inr PNone))"
  by pat_completeness auto
termination
proof (relation "measure (\<lambda>(loads, x). size x)")
  show "wf (measure (\<lambda>(loads, x). size x))" by simp
next
  fix loads :: "string \<Rightarrow> exn + pyval" and maybe_obj :: pyval
  assume h: "py_hasattr maybe_obj ''response''"
  have sz: "map_of attrs k = Some v \<Longrightarrow> size v < Suc (size_list (size_prod (\<lambda>_. 0) size) attrs)"
    for attrs :: "(string \<times> pyval) list" and k v
    by (induction attrs) (auto split: if_splits)
  from h obtain attrs v where "maybe_obj = PObj attrs" "map_of attrs ''response'' = Some v"
    by (cases maybe_obj) auto
  then show "((loads, py_getattr_default maybe_obj ''response'' PNone), (loads, maybe_obj))
      \<in> measure (\<lambda>(loads, x). size x)"
    using sz [of attrs "''response''" v] by simp
qed

declare to_dict.simps [simp del]

text \<open>
  A decoder to instantiate \<open>loads\<close> with: it decodes the three JSON literals, the empty
  array and the empty object as \<^verbatim>\<open>json.loads\<close> does, and raises on every other text
  (where \<^verbatim>\<open>json.loads\<close> accepts more).
\<close>

definition loads_literals :: "string \<Rightarrow> exn + pyval" where
  "loads_literals s =
     (if s = ''null'' then Inr PNone
      else if s = ''true'' then Inr (PBool True)
      else if s = ''false'' then Inr (PBool False)
      else if s = ''[]'' then Inr (PList [])
      else if s = ''{}'' then Inr (PDict [])
      else Inl (OtherException ''JSONDecodeError'' ''Expecting value''))"

text \<open>
  The test \<^verbatim>\<open>key in c and isinstance(c[key], T)\<close>, which the source writes out at each
  place it reads a field.
\<close>

definition key_isinstance :: "string \<Rightarrow> pyval \<Rightarrow> (pyval \<Rightarrow> bool) \<Rightarrow> exn + bool" where
  "key_isinstance k c T =
     py_and (py_in k c) (bind_exn (py_getitem c k) (\<lambda>v. Inr (T v)))"

text \<open>\<^verbatim>\<open>_extract_score\<close>, on any value a caller hands it.\<close>

definition extract_score :: "pyval \<Rightarrow> exn + real option" where
  "extract_score payload =
     bind_exn (key_isinstance ''score'' payload isinstance_int_float)
       (\<lambda>c1.
         if c1 then bind_exn (py_getitem payload ''score'')
                      (\<lambda>v. bind_exn (py_float v) (\<lambda>f. Inr (Some f)))
         else
           bind_exn (key_isinstance ''response'' payload isinstance_dict)
             (\<lambda>c2.
               if c2 then
                 bind_exn (py_getitem payload ''response'')
                   (\<lambda>inner.
                     bind_exn (key_isinstance ''score'' inner isinstance_int_float)
                       (\<lambda>c3.
                         if c3 then bind_exn (py_getitem inner ''score'')
                                      (\<lambda>v. bind_exn (py_float v) (\<lambda>f. Inr (Some f)))
                         else Inr None))
               else Inr None))"

text \<open>
  The words of the specification for a "numeric field": the value under a key when it is
  a number (an int, a bool or a float), the float it is returned as, and whether
  \<^verbatim>\<open>float\<close> can convert it.
\<close>

definition numeric_field :: "(string \<times> pyval) list \<Rightarrow> string \<Rightarrow> pyval option" where
  "numeric_field d k =
     (case map_of d k of
        Some v \<Rightarrow> if isinstance_int_float v then Some v else None
      | None \<Rightarrow> None)"

fun float_value :: "pyval \<Rightarrow> real" where
  "float_value (PInt n) = float_of_int n"
| "float_value (PBool b) = (if b then 1 else 0)"
| "float_value (PFloat x) = x"
| "float_value x = 0"

fun fits_float :: "pyval \<Rightarrow> bool" where
  "fits_float (PInt n) = (\<bar>n\<bar> < float_int_limit)"
| "fits_float x = True"

section \<open>Urgency\<close>

type_synonym score_map = "(string \<times> real) list"

definition CRITICAL_FINDINGS :: "string set" where
  "CRITICAL_FINDINGS = {''Pneumothorax'', ''Pleural Effusion''}"

text \<open>
  Python's \<^verbatim>\<open>max\<close> on a non-empty list keeps the first element and replaces it by a
  later one only when that one is strictly greater.
\<close>

fun py_max_from :: "real \<Rightarrow> real list \<Rightarrow> real" where
  "py_max_from m [] = m"
| "py_max_from m (x # xs) = py_max_from (if m < x then x else m) xs"

definition compute_urgency :: "score_map \<Rightarrow> real" where
  "compute_urgency scores =
     (let vals = map (\<lambda>(k, v). (if k \<in> CRITICAL_FINDINGS then 1.25 else 1.0) * v) scores
      in case vals of [] \<Rightarrow> 0.0 | x # xs \<Rightarrow> py_max_from x xs)"

text \<open>
  The words of the specification: the weight of a finding, the scores of the critical
  findings of a map, and those of the others.
\<close>

definition weight :: "string \<Rightarrow> real" where
  "weight k = (if k \<in> CRITICAL_FINDINGS then 1.25 else 1.0)"

definition critical_scores :: "score_map \<Rightarrow> real list" where
  "critical_scores scores = map snd (filter (\<lambda>(k, v). k \<in> CRITICAL_FINDINGS) scores)"

definition noncritical_scores :: "score_map \<Rightarrow> real list" where
  "noncritical_scores scores = map snd (filter (\<lambda>(k, v). k \<notin> CRITICAL_FINDINGS) scores)"

section \<open>The remote client\<close>

text \<open>
  The SDK client \<^verbatim>\<open>HOPPR\<close> is not part of the repository. Its operations are the fields
  of a record; each takes the call's arguments and the state \<open>'w\<close> of the world it acts
  on (the remote service, the network), and returns the reply or the exception raised,
  with the new state. An upload call records which of the three call styles
  \<^verbatim>\<open>add_image\<close> used.
\<close>

type_synonym bytes = "8 word list"

datatype upload_call =
    Positional string string bytes
  | KwData string string bytes
  | KwImageBytes string string bytes

record prompt_call =
  pc_study_id :: string
  pc_model :: string
  pc_prompt :: string
  pc_organization :: "string option"

record 'w hoppr =
  add_study_image :: "upload_call \<Rightarrow> 'w \<Rightarrow> (exn + pyval) \<times> 'w"
  prompt_model :: "prompt_call \<Rightarrow> 'w \<Rightarrow> (exn + pyval) \<times> 'w"

text \<open>
  Every operation below starts with \<^verbatim>\<open>hoppr = get_hoppr()\<close>, outside any
  \<^verbatim>\<open>try\<close>. The parameter \<open>client\<close> is the outcome of that call: the client, or the
  exception it raised (\<^verbatim>\<open>RuntimeError\<close> when the API key is missing).
\<close>

section \<open>Study session orchestrator\<close>

definition add_image ::
  "exn + 'w hoppr \<Rightarrow> string \<Rightarrow> string \<Rightarrow> bytes \<Rightarrow> 'w \<Rightarrow> (exn + unit) \<times> 'w" where
  "add_image client study_id filename data w =
     (case client of
        Inl e \<Rightarrow> (Inl e, w)
      | Inr hoppr \<Rightarrow>
          (case add_study_image hoppr (Positional study_id filename data) w of
             (Inr r1, w1) \<Rightarrow> (Inr (), w1)
           | (Inl e1, w1) \<Rightarrow>
               if \<not> is_TypeError e1 then (Inl e1, w1)
               else
                 (case add_study_image hoppr (KwData study_id filename data) w1 of
                    (Inr r2, w2) \<Rightarrow> (Inr (), w2)
                  | (Inl e2, w2) \<Rightarrow>
                      if \<not> is_TypeError e2 then (Inl e2, w2)
                      else
                        (case add_study_image hoppr (KwImageBytes study_id filename data) w2 of
                           (Inr r3, w3) \<Rightarrow> (Inr (), w3)
                         | (Inl e3, w3) \<Rightarrow>
                             if \<not> is_TypeError e3 then (Inl e3, w3)
                             else (Inl (RuntimeError
                                     (''add_study_image signature not recognized: '' @ exn_str e3)),
                                   w3)))))"

text \<open>
  The expression \<^verbatim>\<open>_to_dict(resp) or _to_dict(getattr(resp, "response", resp))\<close> of the
  four inference functions.
\<close>

definition payload_of :: "(string \<Rightarrow> exn + pyval) \<Rightarrow> pyval \<Rightarrow> exn + pyval" where
  "payload_of loads resp =
     bind_exn (to_dict loads resp)
       (\<lambda>p. if py_truthy p then Inr p
            else to_dict loads (py_getattr_default resp ''response'' resp))"

definition classifier_call :: "string \<Rightarrow> string \<Rightarrow> prompt_call" where
  "classifier_call study_id model_id =
     \<lparr>pc_study_id = study_id, pc_model = model_id,
      pc_prompt = ''ignored for classification'', pc_organization = Some ''hoppr''\<rparr>"

text \<open>
  \<^verbatim>\<open>run_classifiers\<close>. \<open>classify_try\<close> is the body of the \<^verbatim>\<open>try\<close> for one finding: it
  returns the updated scores or the exception raised. \<open>classify_loop\<close> is the
  \<^verbatim>\<open>for\<close> loop over \<^verbatim>\<open>models.items()\<close>, with \<^verbatim>\<open>except Exception: continue\<close>.
\<close>

definition classify_try ::
  "(string \<Rightarrow> exn + pyval) \<Rightarrow> 'w hoppr \<Rightarrow> string \<Rightarrow> string \<Rightarrow> string \<Rightarrow> score_map \<Rightarrow> 'w
     \<Rightarrow> (exn + score_map) \<times> 'w" where
  "classify_try loads hoppr study_id name model_id scores w =
     (case prompt_model hoppr (classifier_call study_id model_id) w of
        (Inl e, w') \<Rightarrow> (Inl e, w')
      | (Inr resp, w') \<Rightarrow>
          (bind_exn (payload_of loads resp)
             (\<lambda>payload.
               if py_truthy payload then
                 bind_exn (extract_score payload)
                   (\<lambda>s. case s of
                          Some x \<Rightarrow> Inr (AList.update name x scores)
                        | None \<Rightarrow> Inr scores)
               else Inr scores),
           w'))"

fun classify_loop ::
  "(string \<Rightarrow> exn + pyval) \<Rightarrow> 'w hoppr \<Rightarrow> string \<Rightarrow> (string \<times> string option) list
     \<Rightarrow> score_map \<Rightarrow> 'w \<Rightarrow> score_map \<times> 'w" where
  "classify_loop loads hoppr study_id [] scores w = (scores, w)"
| "classify_loop loads hoppr study_id ((name, model_id) # rest) scores w =
     (case model_id of
        None \<Rightarrow> classify_loop loads hoppr study_id rest scores w
      | Some m \<Rightarrow>
          if m = [] then classify_loop loads hoppr study_id rest scores w
          else
            (case classify_try loads hoppr study_id name m scores w of
               (Inl e, w') \<Rightarrow> classify_loop loads hoppr study_id rest scores w'
             | (Inr scores', w') \<Rightarrow> classify_loop loads hoppr study_id rest scores' w'))"

definition run_classifiers ::
  "(string \<Rightarrow> exn + pyval) \<Rightarrow> exn + 'w hoppr \<Rightarrow> string \<Rightarrow> (string \<times> string option) list \<Rightarrow> 'w
     \<Rightarrow> (exn + score_map) \<times> 'w" where
  "run_classifiers loads client study_id models w =
     (case client of
        Inl e \<Rightarrow> (Inl e, w)
      | Inr hoppr \<Rightarrow>
          (case classify_loop loads hoppr study_id models [] w of
             (scores, w') \<Rightarrow> (Inr scores, w')))"

text \<open>\<^verbatim>\<open>run_vlm\<close>: \<open>vlm_try\<close> is the body of its \<^verbatim>\<open>try\<close>.\<close>

definition VLM_MODEL_ID :: string where
  "VLM_MODEL_ID = ''cxr-vlm-experimental''"

definition vlm_call :: "string \<Rightarrow> prompt_call" where
  "vlm_call study_id =
     \<lparr>pc_study_id = study_id, pc_model = VLM_MODEL_ID,
      pc_prompt = ''Provide a concise radiology-style description of key findings.'',
      pc_organization = None\<rparr>"

definition vlm_try ::
  "(string \<Rightarrow> exn + pyval) \<Rightarrow> 'w hoppr \<Rightarrow> string \<Rightarrow> 'w \<Rightarrow> (exn + pyval) \<times> 'w" where
  "vlm_try loads hoppr study_id w =
     (case prompt_model hoppr (vlm_call study_id) w of
        (Inl e, w') \<Rightarrow> (Inl e, w')
      | (Inr resp, w') \<Rightarrow>
          (bind_exn (payload_of loads resp)
             (\<lambda>payload.
               if isinstance_dict payload then
                 bind_exn (key_isinstance ''findings'' payload isinstance_str)
                   (\<lambda>c1.
                     if c1 then py_getitem payload ''findings''
                     else
                       bind_exn (key_isinstance ''response'' payload isinstance_dict)
                         (\<lambda>c2.
                           if c2 then
                             bind_exn (py_getitem payload ''response'')
                               (\<lambda>inner.
                                 bind_exn (key_isinstance ''findings'' inner isinstance_str)
                                   (\<lambda>c3.
                                     if c3 then py_getitem inner ''findings''
                                     else Inr (PStr '''')))
                           else Inr (PStr '''')))
               else Inr (PStr '''')),
           w'))"

definition run_vlm ::
  "(string \<Rightarrow> exn + pyval) \<Rightarrow> exn + 'w hoppr \<Rightarrow> string \<Rightarrow> 'w \<Rightarrow> (exn + pyval) \<times> 'w" where
  "run_vlm loads client study_id w =
     (case client of
        Inl e \<Rightarrow> (Inl e, w)
      | Inr hoppr \<Rightarrow>
          (case vlm_try loads hoppr study_id w of
             (Inl e, w') \<Rightarrow> (Inr (PStr ''''), w')
           | (Inr text, w') \<Rightarrow> (Inr text, w')))"

text \<open>
  \<^verbatim>\<open>run_classifiers_with_payload\<close>: the same loop, which also keeps for each finding the
  payload, a note, or the text of the exception.
\<close>

type_synonym payload_map = "(string \<times> pyval) list"

definition classify_payload_try ::
  "(string \<Rightarrow> exn + pyval) \<Rightarrow> 'w hoppr \<Rightarrow> string \<Rightarrow> string \<Rightarrow> string \<Rightarrow> score_map
     \<Rightarrow> payload_map \<Rightarrow> 'w \<Rightarrow> (exn + score_map \<times> payload_map) \<times> 'w" where
  "classify_payload_try loads hoppr study_id name model_id scores payloads w =
     (case prompt_model hoppr (classifier_call study_id model_id) w of
        (Inl e, w') \<Rightarrow> (Inl e, w')
      | (Inr resp, w') \<Rightarrow>
          (bind_exn (bind_exn (payload_of loads resp)
                       (\<lambda>p. if py_truthy p then Inr p else Inr (PDict [])))
             (\<lambda>payload.
               bind_exn (if isinstance_dict payload then extract_score payload else Inr None)
                 (\<lambda>s. Inr
                   (case s of Some x \<Rightarrow> AList.update name x scores | None \<Rightarrow> scores,
                    AList.update name
                      (if py_truthy payload then payload
                       else PDict [(''note'', PStr ''empty or unparsable payload'')])
                      payloads))),
           w'))"

fun classify_payload_loop ::
  "(string \<Rightarrow> exn + pyval) \<Rightarrow> 'w hoppr \<Rightarrow> string \<Rightarrow> (string \<times> string option) list
     \<Rightarrow> score_map \<Rightarrow> payload_map \<Rightarrow> 'w \<Rightarrow> (score_map \<times> payload_map) \<times> 'w" where
  "classify_payload_loop loads hoppr study_id [] scores payloads w = ((scores, payloads), w)"
| "classify_payload_loop loads hoppr study_id ((name, model_id) # rest) scores payloads w =
     (case model_id of
        None \<Rightarrow> classify_payload_loop loads hoppr study_id rest scores payloads w
      | Some m \<Rightarrow>
          if m = [] then classify_payload_loop loads hoppr study_id rest scores payloads w
          else
            (case classify_payload_try loads hoppr study_id name m scores payloads w of
               (Inl e, w') \<Rightarrow>
                 classify_payload_loop loads hoppr study_id rest scores
                   (AList.update name (PDict [(''error'', PStr (exn_str e))]) payloads) w'
             | (Inr (scores', payloads'), w') \<Rightarrow>
                 classify_payload_loop loads hoppr study_id rest scores' payloads' w'))"

definition run_classifiers_with_payload ::
  "(string \<Rightarrow> exn + pyval) \<Rightarrow> exn + 'w hoppr \<Rightarrow> string \<Rightarrow> (string \<times> string option) list \<Rightarrow> 'w
     \<Rightarrow> (exn + score_map \<times> payload_map) \<times> 'w" where
  "run_classifiers_with_payload loads client study_id models w =
     (case client of
        Inl e \<Rightarrow> (Inl e, w)
      | Inr hoppr \<Rightarrow>
          (case classify_payload_loop loads hoppr study_id models [] [] w of
             (result, w') \<Rightarrow> (Inr result, w')))"

text \<open>The scores once the \<^verbatim>\<open>try\<close> for one finding and its handler are through.\<close>

definition scores_after :: "score_map \<Rightarrow> exn + score_map \<Rightarrow> score_map" where
  "scores_after scores r = (case r of Inl e \<Rightarrow> scores | Inr s \<Rightarrow> s)"

definition scores_after_payload :: "score_map \<Rightarrow> exn + score_map \<times> payload_map \<Rightarrow> score_map" where
  "scores_after_payload scores r = (case r of Inl e \<Rightarrow> scores | Inr (s, p) \<Rightarrow> s)"

section \<open>Clients for observation\<close>

text \<open>
  \<open>recording h\<close> is the client \<open>h\<close> that also keeps, next to the state of \<open>h\<close>, the
  list of the upload calls made so far, each with its outcome.
\<close>

type_synonym upload_log = "(upload_call \<times> (exn + pyval)) list"

definition recording :: "'w hoppr \<Rightarrow> ('w \<times> upload_log) hoppr" where
  "recording h =
     \<lparr>add_study_image =
        (\<lambda>c (w, calls). case add_study_image h c w of (r, w') \<Rightarrow> (r, (w', calls @ [(c, r)]))),
      prompt_model =
        (\<lambda>c (w, calls). case prompt_model h c w of (r, w') \<Rightarrow> (r, (w', calls)))\<rparr>"

text \<open>
  Two upload stubs. The first rejects the positional style and the keyword \<^verbatim>\<open>data\<close>
  with a signature mismatch and accepts the keyword \<^verbatim>\<open>image_bytes\<close>. The second fails
  the positional call with a connection error and would accept both keyword styles.
\<close>

definition stub_third_style :: "unit hoppr" where
  "stub_third_style =
     \<lparr>add_study_image =
        (\<lambda>c w. case c of
            Positional s f d \<Rightarrow>
              (Inl (TypeError ''add_study_image() takes 1 positional argument but 4 were given''), w)
          | KwData s f d \<Rightarrow>
              (Inl (TypeError ''add_study_image() got an unexpected keyword argument data''), w)
          | KwImageBytes s f d \<Rightarrow> (Inr PNone, w)),
      prompt_model = (\<lambda>c w. (Inr PNone, w))\<rparr>"

definition stub_connection_error :: "unit hoppr" where
  "stub_connection_error =
     \<lparr>add_study_image =
        (\<lambda>c w. case c of
            Positional s f d \<Rightarrow> (Inl (OtherException ''ConnectionError'' ''connection reset''), w)
          | KwData s f d \<Rightarrow> (Inr PNone, w)
          | KwImageBytes s f d \<Rightarrow> (Inr PNone, w)),
      prompt_model = (\<lambda>c w. (Inr PNone, w))\<rparr>"

text \<open>
  A remote model call of fixed behaviour: the outcome of a call depends on its arguments
  only, and the state of the world does not change.
\<close>

definition fixed_client :: "(prompt_call \<Rightarrow> exn + pyval) \<Rightarrow> 'w hoppr" where
  "fixed_client f =
     \<lparr>add_study_image = (\<lambda>c w. (Inr PNone, w)), prompt_model = (\<lambda>c w. (f c, w))\<rparr>"

text \<open>
  The words of the specification for one finding: the score its call yields, or none when
  the call raises, the reply has no payload, or the payload yields no score.
\<close>

definition finding_score :: "(string \<Rightarrow> exn + pyval) \<Rightarrow> exn + pyval \<Rightarrow> real option" where
  "finding_score loads reply =
     (case reply of
        Inl e \<Rightarrow> None
      | Inr resp \<Rightarrow>
          (case payload_of loads resp of
             Inl e \<Rightarrow> None
           | Inr p \<Rightarrow>
               if py_truthy p
               then (case extract_score p of Inr (Some x) \<Rightarrow> Some x | _ \<Rightarrow> None)
               else None))"

text \<open>
  The words of the specification for the narrative: the "findings" text of a payload, at
  the top level or else under a nested "response" dict.
\<close>

fun findings_text :: "pyval \<Rightarrow> string option" where
  "findings_text (PDict d) =
     (case map_of d ''findings'' of
        Some (PStr s) \<Rightarrow> Some s
      | _ \<Rightarrow>
          (case map_of d ''response'' of
             Some (PDict inner) \<Rightarrow>
               (case map_of inner ''findings'' of Some (PStr s) \<Rightarrow> Some s | _ \<Rightarrow> None)
           | _ \<Rightarrow> None))"
| "findings_text p = None"

text \<open>
  A model service for four classifiers and the narrative model: the first classifier
  call raises, the second replies with text that is no JSON, the third with an object
  wrapping a scored dict, the fourth with a dict without score; the narrative model
  replies with a dict holding the findings text.
\<close>

definition sample_models :: "(string \<times> string option) list" where
  "sample_models =
     [(''Atelectasis'', Some ''m_atelectasis''), (''Cardiomegaly'', Some ''m_cardiomegaly''),
      (''Pneumothorax'', Some ''m_pneumothorax''), (''Pleural Effusion'', Some ''m_effusion''),
      (''Normal'', None)]"

definition sample_service :: "prompt_call \<Rightarrow> exn + pyval" where
  "sample_service c =
     (if pc_model c = ''m_atelectasis'' then Inl (OtherException ''HOPPRError'' ''model unavailable'')
      else if pc_model c = ''m_cardiomegaly'' then Inr (PStr ''<html>busy</html>'')
      else if pc_model c = ''m_pneumothorax''
        then Inr (PObj [(''response'', PDict [(''score'', PFloat 0.9)])])
      else if pc_model c = ''m_effusion'' then Inr (PDict [(''label'', PStr ''effusion'')])
      else if pc_model c = VLM_MODEL_ID
        then Inr (PDict [(''response'', PDict [(''findings'', PStr ''Small right pneumothorax.'')])])
      else Inl (OtherException ''HOPPRError'' ''unknown model''))"

section \<open>Keyword highlighter\<close>

text \<open>
  \<^verbatim>\<open>str.lower()\<close> and the word characters \<^verbatim>\<open>\w\<close> of \<^verbatim>\<open>re\<close>, on the code points below
  256: the ASCII letters, digits and underscore, and the letters and numeric characters
  of Latin-1.
\<close>

definition py_lower_char :: "char \<Rightarrow> char" where
  "py_lower_char c =
     (let n = of_char c :: nat
      in if (65 \<le> n \<and> n \<le> 90) \<or> (192 \<le> n \<and> n \<le> 222 \<and> n \<noteq> 215)
         then char_of (n + 32) else c)"

definition py_lower :: "string \<Rightarrow> string" where
  "py_lower s = map py_lower_char s"

definition is_word_char :: "char \<Rightarrow> bool" where
  "is_word_char c =
     (let n = of_char c :: nat
      in (48 \<le> n \<and> n \<le> 57) \<or> (65 \<le> n \<and> n \<le> 90) \<or> n = 95 \<or> (97 \<le> n \<and> n \<le> 122) \<or>
         n = 170 \<or> n = 178 \<or> n = 179 \<or> n = 181 \<or> n = 185 \<or> n = 186 \<or>
         n = 188 \<or> n = 189 \<or> n = 190 \<or>
         (192 \<le> n \<and> n \<le> 214) \<or> (216 \<le> n \<and> n \<le> 246) \<or> (248 \<le> n \<and> n \<le> 255))"

text \<open>
  \<^verbatim>\<open>re.search(rf"\b{k}\b", lt)\<close> for a keyword \<open>k\<close> without regular-expression operators
  (letters and spaces, as all keywords are). \<^verbatim>\<open>\b\<close> holds at a position when exactly
  one of the characters before and after it is a word character, the ends of the text
  counting as non-word. \<open>match_here prev k t\<close> tries the position in front of \<open>t\<close>,
  \<open>prev\<close> being the character before it; \<open>search_from\<close> tries every position from
  there on.
\<close>

fun word_char_opt :: "char option \<Rightarrow> bool" where
  "word_char_opt None = False"
| "word_char_opt (Some c) = is_word_char c"

definition word_boundary :: "char option \<Rightarrow> char option \<Rightarrow> bool" where
  "word_boundary left right = (word_char_opt left \<noteq> word_char_opt right)"

fun first_char :: "string \<Rightarrow> char option" where
  "first_char [] = None"
| "first_char (c # cs) = Some c"

definition match_here :: "char option \<Rightarrow> string \<Rightarrow> string \<Rightarrow> bool" where
  "match_here prev k t =
     (word_boundary prev (first_char t) \<and> prefix k t \<and>
      word_boundary (if k = [] then prev else Some (last k)) (first_char (drop (length k) t)))"

fun search_from :: "char option \<Rightarrow> string \<Rightarrow> string \<Rightarrow> bool" where
  "search_from prev k [] = match_here prev k []"
| "search_from prev k (c # cs) = (match_here prev k (c # cs) \<or> search_from (Some c) k cs)"

definition re_search_word :: "string \<Rightarrow> string \<Rightarrow> bool" where
  "re_search_word k lt = search_from None k lt"

definition KEYWORDS :: "string list" where
  "KEYWORDS =
     [''pneumothorax'', ''effusion'', ''cardiomegaly'', ''opacity'', ''consolidation'',
      ''infiltrate'', ''interstitial'', ''fibrosis'', ''calcification'', ''pleural thickening'',
      ''aorta'', ''uncoiling'', ''enlarged'', ''nodule'', ''mass'', ''edema'', ''congestion'']"

text \<open>
  \<^verbatim>\<open>extract_keywords\<close>. \<^verbatim>\<open>sorted(set(hits))\<close> is the sorted list of the distinct hits;
  strings are compared as Python compares them, lexicographically by code point. No
  keyword makes \<^verbatim>\<open>re.search\<close> raise \<^verbatim>\<open>re.error\<close>.
\<close>

definition extract_keywords :: "string \<Rightarrow> string list" where
  "extract_keywords vlm_text =
     (if vlm_text = [] then []
      else
        (let lt = py_lower vlm_text;
             hits = filter (\<lambda>k. re_search_word k lt) KEYWORDS
         in sort (remdups hits)))"

text \<open>
  The words of the specification for a word-boundary match: the keyword occurs in the
  text with no word character right before and none right after the occurrence.
\<close>

definition word_match :: "string \<Rightarrow> string \<Rightarrow> bool" where
  "word_match k s =
     (\<exists>pre post. s = pre @ k @ post \<and>
        (pre = [] \<or> \<not> is_word_char (last pre)) \<and>
        (post = [] \<or> \<not> is_word_char (hd post)))"

section \<open>Properties of the response normaliser\<close>

lemma bind_exn_Inr [simp]: "bind_exn (Inr x) f = f x"
  by (simp add: bind_exn_def)

lemma bind_exn_Inl [simp]: "bind_exn (Inl e) f = Inl e"
  by (simp add: bind_exn_def)

lemma py_and_simps [simp]:
  "py_and (Inr True) b = b" "py_and (Inr False) b = Inr False" "py_and (Inl e) b = Inl e"
  by (simp_all add: py_and_def)

lemma key_isinstance_dict:
  "key_isinstance k (PDict d) T = Inr (case map_of d k of Some v \<Rightarrow> T v | None \<Rightarrow> False)"
  by (cases "map_of d k") (simp_all add: key_isinstance_def)

lemma to_dict_obj:
  "to_dict loads (PObj attrs) =
     (case map_of attrs ''response'' of Some r \<Rightarrow> to_dict loads r | None \<Rightarrow> Inr PNone)"
  by (subst to_dict.simps) (simp split: option.splits)

lemma to_dict_dict: "to_dict loads (PDict d) = Inr (PDict d)"
  by (subst to_dict.simps) simp

lemma to_dict_str:
  "to_dict loads (PStr s) = (case loads s of Inl e \<Rightarrow> Inr PNone | Inr v \<Rightarrow> Inr v)"
  by (subst to_dict.simps) simp

lemma to_dict_other:
  "to_dict loads PNone = Inr PNone" "to_dict loads (PBool b) = Inr PNone"
  "to_dict loads (PInt n) = Inr PNone" "to_dict loads (PFloat x) = Inr PNone"
  "to_dict loads (PList xs) = Inr PNone"
  by (subst to_dict.simps, simp)+

lemmas to_dict_eqs = to_dict_obj to_dict_dict to_dict_str to_dict_other

text \<open>The normaliser never raises: whatever the decoder does, it returns a value.\<close>

lemma to_dict_returns: "\<exists>v. to_dict loads x = Inr v"
proof (induction loads x rule: to_dict.induct)
  case (1 loads maybe_obj)
  show ?case
  proof (cases maybe_obj)
    case (PObj attrs)
    show ?thesis
    proof (cases "map_of attrs ''response''")
      case None
      then show ?thesis by (simp add: PObj to_dict_obj)
    next
      case (Some r)
      then have "py_hasattr maybe_obj ''response''" by (simp add: PObj)
      from "1.IH" [OF this] Some show ?thesis by (simp add: PObj to_dict_obj)
    qed
  next
    case (PStr s)
    then show ?thesis by (cases "loads s") (simp_all add: to_dict_str)
  qed (simp_all add: to_dict_eqs)
qed

text \<open>On a result that is a dict or \<^verbatim>\<open>None\<close>, a second application changes nothing.\<close>

lemma to_dict_fixed_on_dict_or_None:
  "isinstance_dict v \<or> v = PNone \<Longrightarrow> to_dict loads v = Inr v"
  by (cases v) (simp_all add: to_dict_eqs)

text \<open>
  C3. \<^verbatim>\<open>_to_dict\<close> is to return a dict or \<^verbatim>\<open>None\<close>. On a string it returns whatever
  the decoder yields: on the text \<^verbatim>\<open>[]\<close>, which \<^verbatim>\<open>json.loads\<close> decodes to the empty
  list, it returns that list, which is neither a dict nor \<^verbatim>\<open>None\<close>.
\<close>

theorem to_dict_json_array_not_dict:
  assumes "loads ''[]'' = Inr (PList [])"
  shows "to_dict loads (PStr ''[]'') = Inr (PList []) \<and>
         \<not> isinstance_dict (PList []) \<and> PList [] \<noteq> PNone"
  using assms by (simp add: to_dict_str)

theorem to_dict_json_array_not_dict_witness:
  "loads_literals ''[]'' = Inr (PList []) \<and>
   to_dict loads_literals (PStr ''[]'') = Inr (PList [])"
  using to_dict_json_array_not_dict [of loads_literals] by (simp add: loads_literals_def)

text \<open>
  C7. \<^verbatim>\<open>_to_dict\<close> is to be idempotent. For the same reason it is not: the text \<^verbatim>\<open>[]\<close>
  is normalised to the empty list, and the empty list to \<^verbatim>\<open>None\<close>.
\<close>

theorem to_dict_twice_differs:
  assumes "loads ''[]'' = Inr (PList [])"
  shows "bind_exn (to_dict loads (PStr ''[]'')) (to_dict loads) = Inr PNone \<and>
         bind_exn (to_dict loads (PStr ''[]'')) (to_dict loads) \<noteq> to_dict loads (PStr ''[]'')"
  using assms by (simp add: to_dict_str to_dict_other bind_exn_def)

theorem to_dict_twice_differs_witness:
  "bind_exn (to_dict loads_literals (PStr ''[]'')) (to_dict loads_literals) = Inr PNone \<and>
   to_dict loads_literals (PStr ''[]'') = Inr (PList [])"
proof -
  have h: "loads_literals ''[]'' = Inr (PList [])" by (simp add: loads_literals_def)
  from to_dict_twice_differs [of loads_literals, OF h] show ?thesis by (simp add: to_dict_str h)
qed

section \<open>Properties of the score extractor\<close>

lemma numeric_field_Some: "numeric_field d k = Some v \<Longrightarrow> map_of d k = Some v"
  by (auto simp: numeric_field_def split: option.splits if_splits)

lemma numeric_field_numeric: "numeric_field d k = Some v \<Longrightarrow> isinstance_int_float v"
  by (auto simp: numeric_field_def split: option.splits if_splits)

lemma numeric_test:
  "key_isinstance k (PDict d) isinstance_int_float = Inr (numeric_field d k \<noteq> None)"
  by (simp add: key_isinstance_dict numeric_field_def split: option.splits)

lemma dict_test:
  "key_isinstance k (PDict d) isinstance_dict = Inr (\<exists>inner. map_of d k = Some (PDict inner))"
proof (cases "map_of d k")
  case None
  then show ?thesis by (simp add: key_isinstance_dict)
next
  case (Some v)
  then show ?thesis by (cases v) (simp_all add: key_isinstance_dict)
qed

text \<open>The conversion of an integer to a float: exact up to \<open>2^53\<close>, and never
  further from the integer than half a unit of the 53-bit mantissa.\<close>

lemma bit_length_le_iff: "bit_length a \<le> k \<longleftrightarrow> a < 2 ^ k"
proof (induction a arbitrary: k rule: bit_length.induct)
  case (1 n)
  show ?case
  proof (cases "n = 0")
    case True
    then show ?thesis by (simp add: bit_length.simps)
  next
    case False
    show ?thesis
    proof (cases k)
      case 0
      with False show ?thesis by (simp add: bit_length.simps [of n])
    next
      case (Suc j)
      have "bit_length n \<le> Suc j \<longleftrightarrow> bit_length (n div 2) \<le> j"
        using False by (simp add: bit_length.simps [of n])
      also have "\<dots> \<longleftrightarrow> n div 2 < 2 ^ j" using "1.IH" [OF False, of j] .
      also have "\<dots> \<longleftrightarrow> n < 2 ^ Suc j" by auto
      finally show ?thesis using Suc by simp
    qed
  qed
qed

lemma round_exact_dvd:
  assumes "2 ^ (bit_length a - 53) dvd a"
  shows "round_half_even a = a"
proof (cases "bit_length a \<le> 53")
  case True
  then show ?thesis by (simp add: round_half_even_def)
next
  case False
  let ?s = "bit_length a - 53"
  have r: "a mod 2 ^ ?s = 0" using assms by (simp add: mod_eq_0_iff_dvd)
  have "a div 2 ^ ?s * 2 ^ ?s = a" using assms by simp
  then show ?thesis using False by (simp add: round_half_even_def Let_def r)
qed

lemma round_exact_small:
  assumes "a \<le> 2 ^ 53"
  shows "round_half_even a = a"
proof (cases "a = 2 ^ 53")
  case True
  have "bit_length a \<le> 54" by (simp add: bit_length_le_iff True)
  then have "2 ^ (bit_length a - 53) dvd (2::nat) ^ 53"
    by (intro le_imp_power_dvd) simp
  then show ?thesis using round_exact_dvd [of a] by (simp add: True)
next
  case False
  with assms have "a < 2 ^ 53" by simp
  then have "bit_length a \<le> 53" by (simp add: bit_length_le_iff)
  then show ?thesis by (simp add: round_half_even_def)
qed

lemma round_error:
  "2 * \<bar>int (round_half_even a) - int a\<bar> \<le> 2 ^ (bit_length a - 53)"
proof (cases "bit_length a \<le> 53")
  case True
  then show ?thesis by (simp add: round_half_even_def)
next
  case False
  define s where "s = bit_length a - 53"
  define q where "q = a div 2 ^ s"
  define r where "r = a mod 2 ^ s"
  define half :: nat where "half = 2 ^ (s - 1)"
  have s: "0 < s" using False by (simp add: s_def)
  have two: "2 ^ s = 2 * half" using s by (cases s) (simp_all add: half_def)
  have a: "a = q * 2 ^ s + r" unfolding q_def r_def by (rule div_mult_mod_eq [symmetric])
  have rl: "r < 2 ^ s" by (simp add: r_def)
  have "int a = int (q * 2 ^ s + r)" by (rule arg_cong [OF a])
  then have ia: "int a = int q * 2 ^ s + int r" by simp
  have "int (2 ^ s) = int (2 * half)" by (rule arg_cong [OF two])
  then have twoi: "(2::int) ^ s = 2 * int half" by simp
  show ?thesis
  proof (cases "half < r \<or> (r = half \<and> odd q)")
    case True
    then have rd: "round_half_even a = (q + 1) * 2 ^ s"
      using False by (simp add: round_half_even_def Let_def s_def q_def r_def half_def)
    have "int (round_half_even a) - int a = int (2 ^ s) - int r"
      using ia by (simp add: rd algebra_simps)
    moreover have "int half \<le> int r" using True by auto
    moreover have "int r < 2 * int half" using rl two by simp
    ultimately have "2 * \<bar>int (round_half_even a) - int a\<bar> \<le> 2 * int half"
      using twoi by simp
    also have "\<dots> = 2 ^ s" using twoi by simp
    finally show ?thesis by (simp add: s_def)
  next
    case down: False
    then have rd: "round_half_even a = q * 2 ^ s"
      using False by (simp add: round_half_even_def Let_def s_def q_def r_def half_def)
    have "int (round_half_even a) - int a = - int r"
      using ia by (simp add: rd)
    moreover have "int r \<le> int half" using down by auto
    ultimately have "2 * \<bar>int (round_half_even a) - int a\<bar> \<le> 2 * int half" by simp
    also have "\<dots> = 2 ^ s" using twoi by simp
    finally show ?thesis by (simp add: s_def)
  qed
qed

lemma float_of_int_exact: "\<bar>n\<bar> \<le> 2 ^ 53 \<Longrightarrow> float_of_int n = real_of_int n"
proof -
  assume b: "\<bar>n\<bar> \<le> 2 ^ 53"
  then have "nat \<bar>n\<bar> \<le> 2 ^ 53" by (simp add: nat_le_iff)
  then have e: "round_half_even (nat \<bar>n\<bar>) = nat \<bar>n\<bar>" by (rule round_exact_small)
  show ?thesis
  proof (cases "n < 0")
    case True
    then have "nat \<bar>n\<bar> = nat (- n)" by simp
    with e True show ?thesis by (simp add: float_of_int_def)
  next
    case False
    then have "nat \<bar>n\<bar> = nat n" by simp
    with e False show ?thesis by (simp add: float_of_int_def)
  qed
qed

lemma float_of_int_error:
  "2 * \<bar>float_of_int n - real_of_int n\<bar> \<le> 2 ^ (bit_length (nat \<bar>n\<bar>) - 53)"
proof -
  define a where "a = nat \<bar>n\<bar>"
  define d where "d = int (round_half_even a) - int a"
  have "float_of_int n - real_of_int n = (if n < 0 then - real_of_int d else real_of_int d)"
  proof (cases "n < 0")
    case True
    then have "nat (- n) = a" and "real_of_int n = - real a" by (simp_all add: a_def)
    with True show ?thesis by (simp add: float_of_int_def d_def)
  next
    case False
    then have "nat n = a" and "real_of_int n = real a" by (simp_all add: a_def)
    with False show ?thesis by (simp add: float_of_int_def d_def)
  qed
  then have "\<bar>float_of_int n - real_of_int n\<bar> = real_of_int \<bar>d\<bar>" by simp
  then have "2 * \<bar>float_of_int n - real_of_int n\<bar> = real_of_int (2 * \<bar>d\<bar>)" by simp
  also have "\<dots> \<le> real_of_int (2 ^ (bit_length a - 53))"
    using round_error [of a] unfolding d_def by (simp only: of_int_le_iff)
  finally show ?thesis by (simp add: a_def)
qed


lemma bit_length_eq:
  assumes "2 ^ k \<le> a" "a < 2 ^ Suc k"
  shows "bit_length a = Suc k"
proof -
  have "bit_length a \<le> Suc k" using assms(2) by (simp only: bit_length_le_iff)
  moreover have "\<not> bit_length a \<le> k" using assms(1) by (simp only: bit_length_le_iff not_less)
  ultimately show ?thesis by simp
qed

lemma round_2_53_1: "round_half_even (2 ^ 53 + 1) = 2 ^ 53"
proof -
  have "bit_length (2 ^ 53 + 1) = Suc 53" by (rule bit_length_eq) simp_all
  then show ?thesis by (simp add: round_half_even_def)
qed

lemma round_dvd: "2 ^ (bit_length a - 53) dvd round_half_even a"
  by (simp add: round_half_even_def Let_def)

lemma float_number:
  "isinstance_int_float v \<Longrightarrow> fits_float v \<Longrightarrow> py_float v = Inr (float_value v)"
  by (cases v) simp_all

text \<open>What the extractor does on a dict, location by location.\<close>

lemma extract_score_dict_cases:
  "extract_score (PDict d) =
     (case numeric_field d ''score'' of
        Some v \<Rightarrow> bind_exn (py_float v) (\<lambda>f. Inr (Some f))
      | None \<Rightarrow>
          (case map_of d ''response'' of
             Some (PDict inner) \<Rightarrow>
               (case numeric_field inner ''score'' of
                  Some v \<Rightarrow> bind_exn (py_float v) (\<lambda>f. Inr (Some f))
                | None \<Rightarrow> Inr None)
           | _ \<Rightarrow> Inr None))"
proof (cases "numeric_field d ''score''")
  case (Some v)
  then show ?thesis
    by (simp add: extract_score_def numeric_test numeric_field_Some)
next
  case None
  show ?thesis
  proof (cases "\<exists>inner. map_of d ''response'' = Some (PDict inner)")
    case False
    then have "(case map_of d ''response'' of
             Some (PDict inner) \<Rightarrow>
               (case numeric_field inner ''score'' of
                  Some v \<Rightarrow> bind_exn (py_float v) (\<lambda>f. Inr (Some f))
                | None \<Rightarrow> Inr None)
           | _ \<Rightarrow> Inr None) = Inr None"
      by (auto split: option.splits pyval.splits)
    with False show ?thesis
      by (simp add: extract_score_def numeric_test dict_test None)
  next
    case True
    then obtain inner where inner: "map_of d ''response'' = Some (PDict inner)" by blast
    show ?thesis
    proof (cases "numeric_field inner ''score''")
      case n: None
      show ?thesis
        by (simp add: extract_score_def numeric_test dict_test None inner n)
    next
      case s: (Some v)
      show ?thesis
        by (simp add: extract_score_def numeric_test dict_test None inner s numeric_field_Some)
    qed
  qed
qed

text \<open>
  C4. A top-level numeric "score" is claimed to be returned exactly, as a float,
  whatever its value. An integer of magnitude \<open>2^1024\<close> is numeric, and \<^verbatim>\<open>float\<close>
  raises \<^verbatim>\<open>OverflowError\<close> on it: the extractor raises instead of returning. The
  integer \<open>2^53 + 1\<close> is numeric too, and \<^verbatim>\<open>float\<close> rounds it to \<open>2^53\<close>: the
  extractor returns another value.
\<close>

theorem extract_score_huge_int_counterexample:
  "isinstance_int_float (PInt (2 ^ 1024)) \<and>
   extract_score (PDict [(''score'', PInt (2 ^ 1024))]) =
     Inl (OverflowError ''int too large to convert to float'') \<and>
   extract_score (PDict [(''score'', PInt (2 ^ 53 + 1))]) = Inr (Some (2 ^ 53)) \<and>
   real_of_int (2 ^ 53 + 1) \<noteq> 2 ^ 53"
proof -
  have "float_of_int (2 ^ 53 + 1) = 2 ^ 53"
    using round_2_53_1 by (simp add: float_of_int_def nat_add_distrib nat_power_eq)
  then show ?thesis
    by (simp add: extract_score_dict_cases numeric_field_def float_int_limit_def)
qed

text \<open>
  C4, as the code has it, for numbers that \<^verbatim>\<open>float\<close> converts. On a dict payload: a
  numeric top-level "score" is returned as the float \<^verbatim>\<open>float\<close> makes of it; when the
  top level has no numeric "score", a numeric "score" of a nested "response" dict is
  returned so; when neither place holds a number, the result is \<^verbatim>\<open>None\<close>. The float
  of a float is that float, of a bool 1.0 or 0.0, and of an integer up to \<open>2^53\<close> in
  magnitude the integer itself; of a larger integer it is a multiple of the unit of its
  53-bit mantissa that differs from the integer by half such a unit at most.
\<close>

theorem extract_score_locations:
  "(numeric_field d ''score'' = Some v \<and> fits_float v \<longrightarrow>
      extract_score (PDict d) = Inr (Some (float_value v))) \<and>
   (numeric_field d ''score'' = None \<and> map_of d ''response'' = Some (PDict inner) \<and>
    numeric_field inner ''score'' = Some v \<and> fits_float v \<longrightarrow>
      extract_score (PDict d) = Inr (Some (float_value v))) \<and>
   (numeric_field d ''score'' = None \<and>
    (\<forall>inner. map_of d ''response'' = Some (PDict inner) \<longrightarrow>
       numeric_field inner ''score'' = None) \<longrightarrow>
      extract_score (PDict d) = Inr None) \<and>
   float_value (PFloat x) = x \<and>
   float_value (PBool b) = (if b then 1.0 else 0.0) \<and>
   (\<bar>n\<bar> \<le> 2 ^ 53 \<longrightarrow> float_value (PInt n) = real_of_int n) \<and>
   2 * \<bar>float_value (PInt n) - real_of_int n\<bar> \<le> 2 ^ (bit_length (nat \<bar>n\<bar>) - 53) \<and>
   2 ^ (bit_length (nat \<bar>n\<bar>) - 53) dvd round_half_even (nat \<bar>n\<bar>) \<and>
   (bit_length a \<le> k \<longleftrightarrow> a < 2 ^ k)"
proof (intro conjI impI)
  assume a: "numeric_field d ''score'' = Some v \<and> fits_float v"
  then have "py_float v = Inr (float_value v)"
    using numeric_field_numeric [of d "''score''" v] by (simp add: float_number)
  with a show "extract_score (PDict d) = Inr (Some (float_value v))"
    by (simp add: extract_score_dict_cases)
next
  assume a: "numeric_field d ''score'' = None \<and> map_of d ''response'' = Some (PDict inner) \<and>
    numeric_field inner ''score'' = Some v \<and> fits_float v"
  then have "py_float v = Inr (float_value v)"
    using numeric_field_numeric [of inner "''score''" v] by (simp add: float_number)
  with a show "extract_score (PDict d) = Inr (Some (float_value v))"
    by (simp add: extract_score_dict_cases)
next
  assume a: "numeric_field d ''score'' = None \<and>
    (\<forall>inner. map_of d ''response'' = Some (PDict inner) \<longrightarrow>
       numeric_field inner ''score'' = None)"
  show "extract_score (PDict d) = Inr None"
  proof (cases "map_of d ''response''")
    case None
    with a show ?thesis by (simp add: extract_score_dict_cases)
  next
    case (Some r)
    with a show ?thesis by (cases r) (simp_all add: extract_score_dict_cases)
  qed
next
  show "float_value (PFloat x) = x" by simp
next
  show "float_value (PBool b) = (if b then 1.0 else 0.0)" by simp
next
  assume "\<bar>n\<bar> \<le> 2 ^ 53"
  then show "float_value (PInt n) = real_of_int n" by (simp add: float_of_int_exact)
next
  show "2 * \<bar>float_value (PInt n) - real_of_int n\<bar> \<le> 2 ^ (bit_length (nat \<bar>n\<bar>) - 53)"
    using float_of_int_error [of n] by simp
next
  show "2 ^ (bit_length (nat \<bar>n\<bar>) - 53) dvd round_half_even (nat \<bar>n\<bar>)"
    by (rule round_dvd)
next
  show "bit_length a \<le> k \<longleftrightarrow> a < 2 ^ k" by (rule bit_length_le_iff)
qed

theorem extract_score_locations_witness:
  "extract_score (PDict [(''score'', PFloat 0.87)]) = Inr (Some 0.87) \<and>
   extract_score (PDict [(''score'', PInt 1), (''response'', PDict [(''score'', PFloat 0.5)])])
     = Inr (Some 1) \<and>
   extract_score (PDict [(''score'', PStr ''high''), (''response'', PDict [(''score'', PFloat 0.5)])])
     = Inr (Some 0.5) \<and>
   extract_score (PDict [(''response'', PDict [(''label'', PStr ''x'')])]) = Inr None \<and>
   extract_score (PDict [(''response'', PStr ''text'')]) = Inr None"
  using
    extract_score_locations [where d = "[(''score'', PFloat 0.87)]" and v = "PFloat 0.87"]
    extract_score_locations [where
      d = "[(''score'', PInt 1), (''response'', PDict [(''score'', PFloat 0.5)])]"
      and v = "PInt 1" and n = 1]
    extract_score_locations [where
      d = "[(''score'', PStr ''high''), (''response'', PDict [(''score'', PFloat 0.5)])]"
      and v = "PFloat 0.5" and inner = "[(''score'', PFloat 0.5)]"]
    extract_score_locations [where d = "[(''response'', PDict [(''label'', PStr ''x'')])]"]
    extract_score_locations [where d = "[(''response'', PStr ''text'')]"]
  by (simp add: numeric_field_def float_int_limit_def)

text \<open>
  C10. A boolean "score" counts as a number: at the top level, or in the nested
  "response" dict when the top level has no numeric "score", \<^verbatim>\<open>True\<close> is returned as
  1.0 and \<^verbatim>\<open>False\<close> as 0.0.
\<close>

theorem extract_score_bool:
  "(map_of d ''score'' = Some (PBool b) \<longrightarrow>
      extract_score (PDict d) = Inr (Some (if b then 1.0 else 0.0))) \<and>
   (numeric_field d ''score'' = None \<and> map_of d ''response'' = Some (PDict inner) \<and>
    map_of inner ''score'' = Some (PBool b) \<longrightarrow>
      extract_score (PDict d) = Inr (Some (if b then 1.0 else 0.0)))"
  by (simp add: extract_score_dict_cases numeric_field_def)

theorem extract_score_bool_witness:
  "extract_score (PDict [(''score'', PBool True)]) = Inr (Some 1.0) \<and>
   extract_score (PDict [(''score'', PBool False)]) = Inr (Some 0.0) \<and>
   extract_score (PDict [(''response'', PDict [(''score'', PBool True)])]) = Inr (Some 1.0)"
  using extract_score_bool [of "[(''score'', PBool True)]" True]
    extract_score_bool [of "[(''score'', PBool False)]" False]
    extract_score_bool [of "[(''response'', PDict [(''score'', PBool True)])]" True
      "[(''score'', PBool True)]"]
  by (simp add: numeric_field_def)

section \<open>Properties of the upload fallback\<close>

lemma recording_upload:
  "add_study_image (recording h) c (w, calls) =
     (fst (add_study_image h c w), (snd (add_study_image h c w), calls @ [(c, fst (add_study_image h c w))]))"
  by (simp add: recording_def split: prod.splits)

lemma is_TypeError_iff: "is_TypeError e \<longleftrightarrow> (\<exists>m. e = TypeError m)"
  by (cases e) simp_all

text \<open>
  C5. \<^verbatim>\<open>add_image\<close> is claimed to signal failure only when all three call styles
  fail. With the second stub the positional call fails with a connection error, which
  \<^verbatim>\<open>except TypeError\<close> does not catch: \<^verbatim>\<open>add_image\<close> raises it after that single call,
  although the keyword style \<^verbatim>\<open>data\<close> would have succeeded.
\<close>

theorem add_image_connection_error_counterexample:
  "add_image (Inr (recording stub_connection_error)) ''study-1'' ''cxr.png'' [1, 2, 3] ((), []) =
     (Inl (OtherException ''ConnectionError'' ''connection reset''),
      ((), [(Positional ''study-1'' ''cxr.png'' [1, 2, 3],
             Inl (OtherException ''ConnectionError'' ''connection reset''))])) \<and>
   add_study_image stub_connection_error (KwData ''study-1'' ''cxr.png'' [1, 2, 3]) () =
     (Inr PNone, ())"
  by (simp add: add_image_def recording_upload stub_connection_error_def)

text \<open>
  C5, as the code has it. With a client at hand, \<^verbatim>\<open>add_image\<close> makes the calls in the
  order positional, keyword \<^verbatim>\<open>data\<close>, keyword \<^verbatim>\<open>image_bytes\<close>, at least one and never
  a fourth; it goes on to the next style only after a \<^verbatim>\<open>TypeError\<close>; it returns when a
  call succeeds; an exception other than \<^verbatim>\<open>TypeError\<close> is raised to the caller at once;
  after three \<^verbatim>\<open>TypeError\<close>s it raises \<^verbatim>\<open>RuntimeError\<close>. In particular, when the first
  two styles raise \<^verbatim>\<open>TypeError\<close> and the third succeeds, it succeeds with exactly these
  three calls.
\<close>

theorem add_image_fallback:
  fixes h :: "'w hoppr" and study_id filename :: string and data :: bytes
  defines "c1 \<equiv> Positional study_id filename data"
    and "c2 \<equiv> KwData study_id filename data"
    and "c3 \<equiv> KwImageBytes study_id filename data"
  shows
    "(case add_image (Inr (recording h)) study_id filename data (w, []) of
        (res, (w', calls)) \<Rightarrow>
          calls \<noteq> [] \<and> prefix (map fst calls) [c1, c2, c3] \<and>
          (\<forall>(c, r) \<in> set (butlast calls). \<exists>m. r = Inl (TypeError m)) \<and>
          (case snd (last calls) of
             Inr v \<Rightarrow> res = Inr ()
           | Inl e \<Rightarrow>
               if is_TypeError e
               then length calls = 3 \<and>
                    res = Inl (RuntimeError
                                 (''add_study_image signature not recognized: '' @ exn_str e))
               else res = Inl e)) \<and>
     (\<forall>m1 m2 v w1 w2 w3.
        add_study_image h c1 w = (Inl (TypeError m1), w1) \<and>
        add_study_image h c2 w1 = (Inl (TypeError m2), w2) \<and>
        add_study_image h c3 w2 = (Inr v, w3) \<longrightarrow>
        add_image (Inr (recording h)) study_id filename data (w, []) =
          (Inr (), (w3, [(c1, Inl (TypeError m1)), (c2, Inl (TypeError m2)), (c3, Inr v)])))"
proof (rule conjI)
  obtain r1 w1 where a1: "add_study_image h c1 w = (r1, w1)" by (cases "add_study_image h c1 w")
  obtain r2 w2 where a2: "add_study_image h c2 w1 = (r2, w2)" by (cases "add_study_image h c2 w1")
  obtain r3 w3 where a3: "add_study_image h c3 w2 = (r3, w3)" by (cases "add_study_image h c3 w2")
  note defs = add_image_def recording_upload c1_def [symmetric] c2_def [symmetric]
    c3_def [symmetric] a1 a2 a3
  show "case add_image (Inr (recording h)) study_id filename data (w, []) of
        (res, (w', calls)) \<Rightarrow>
          calls \<noteq> [] \<and> prefix (map fst calls) [c1, c2, c3] \<and>
          (\<forall>(c, r) \<in> set (butlast calls). \<exists>m. r = Inl (TypeError m)) \<and>
          (case snd (last calls) of
             Inr v \<Rightarrow> res = Inr ()
           | Inl e \<Rightarrow>
               if is_TypeError e
               then length calls = 3 \<and>
                    res = Inl (RuntimeError
                                 (''add_study_image signature not recognized: '' @ exn_str e))
               else res = Inl e)"
  proof (cases r1)
    case (Inr v1)
    then show ?thesis by (simp add: defs)
  next
    case e1: (Inl e1)
    show ?thesis
    proof (cases "is_TypeError e1")
      case False
      then show ?thesis by (simp add: defs e1)
    next
      case t1: True
      then obtain m1 where m1: "e1 = TypeError m1" by (auto simp: is_TypeError_iff)
      show ?thesis
      proof (cases r2)
        case (Inr v2)
        then show ?thesis by (simp add: defs e1 m1)
      next
        case e2: (Inl e2)
        show ?thesis
        proof (cases "is_TypeError e2")
          case False
          then show ?thesis by (simp add: defs e1 m1 e2)
        next
          case t2: True
          then obtain m2 where m2: "e2 = TypeError m2" by (auto simp: is_TypeError_iff)
          show ?thesis
          proof (cases r3)
            case (Inr v3)
            then show ?thesis by (simp add: defs e1 m1 e2 m2)
          next
            case e3: (Inl e3)
            then show ?thesis by (cases "is_TypeError e3") (simp_all add: defs e1 m1 e2 m2)
          qed
        qed
      qed
    qed
  qed
next
  show "\<forall>m1 m2 v w1 w2 w3.
        add_study_image h c1 w = (Inl (TypeError m1), w1) \<and>
        add_study_image h c2 w1 = (Inl (TypeError m2), w2) \<and>
        add_study_image h c3 w2 = (Inr v, w3) \<longrightarrow>
        add_image (Inr (recording h)) study_id filename data (w, []) =
          (Inr (), (w3, [(c1, Inl (TypeError m1)), (c2, Inl (TypeError m2)), (c3, Inr v)]))"
    by (simp add: add_image_def recording_upload c1_def c2_def c3_def)
qed

theorem add_image_fallback_witness:
  "add_image (Inr (recording stub_third_style)) ''study-1'' ''cxr.png'' [1, 2, 3] ((), []) =
     (Inr (),
      ((), [(Positional ''study-1'' ''cxr.png'' [1, 2, 3],
             Inl (TypeError ''add_study_image() takes 1 positional argument but 4 were given'')),
            (KwData ''study-1'' ''cxr.png'' [1, 2, 3],
             Inl (TypeError ''add_study_image() got an unexpected keyword argument data'')),
            (KwImageBytes ''study-1'' ''cxr.png'' [1, 2, 3], Inr PNone)]))"
  using add_image_fallback [where h = stub_third_style and study_id = "''study-1''"
      and filename = "''cxr.png''" and data = "[1, 2, 3]" and w = "()"]
  by (simp add: stub_third_style_def)

section \<open>Properties of the inference calls\<close>

lemma payload_of_returns: "\<exists>p. payload_of loads resp = Inr p"
proof -
  obtain p where p: "to_dict loads resp = Inr p" using to_dict_returns by blast
  obtain q where q: "to_dict loads (py_getattr_default resp ''response'' resp) = Inr q"
    using to_dict_returns by blast
  show ?thesis by (simp add: payload_of_def p q)
qed

text \<open>On a payload that is no dict the extractor raises or finds nothing.\<close>

lemma key_isinstance_non_dict:
  "\<not> isinstance_dict p \<Longrightarrow> (\<exists>e. key_isinstance k p T = Inl e) \<or> key_isinstance k p T = Inr False"
  by (cases p) (simp_all add: key_isinstance_def py_and_def)

lemma extract_score_non_dict:
  assumes "\<not> isinstance_dict p"
  shows "(\<exists>e. extract_score p = Inl e) \<or> extract_score p = Inr None"
proof -
  from key_isinstance_non_dict [OF assms, of "''score''" isinstance_int_float]
  show ?thesis
  proof
    assume "\<exists>e. key_isinstance ''score'' p isinstance_int_float = Inl e"
    then show ?thesis by (auto simp: extract_score_def)
  next
    assume c1: "key_isinstance ''score'' p isinstance_int_float = Inr False"
    from key_isinstance_non_dict [OF assms, of "''response''" isinstance_dict]
    show ?thesis
    proof
      assume "\<exists>e. key_isinstance ''response'' p isinstance_dict = Inl e"
      then show ?thesis by (auto simp: extract_score_def c1)
    next
      assume "key_isinstance ''response'' p isinstance_dict = Inr False"
      then show ?thesis by (simp add: extract_score_def c1)
    qed
  qed
qed

lemma extract_score_empty_dict: "extract_score (PDict []) = Inr None"
  by (simp add: extract_score_dict_cases numeric_field_def)

text \<open>
  One finding: the scores after the \<^verbatim>\<open>try\<close> and its handler are the same in the plain
  and in the payload-keeping loop, and so is the state of the world.
\<close>

lemma try_same_scores:
  "scores_after scores (fst (classify_try loads h sid name m scores w)) =
     scores_after_payload scores
       (fst (classify_payload_try loads h sid name m scores payloads w)) \<and>
   snd (classify_try loads h sid name m scores w) =
     snd (classify_payload_try loads h sid name m scores payloads w)"
proof (cases "prompt_model h (classifier_call sid m) w")
  case (Pair r w')
  show ?thesis
  proof (cases r)
    case (Inl e)
    then show ?thesis
      by (simp add: classify_try_def classify_payload_try_def Pair scores_after_def
          scores_after_payload_def)
  next
    case (Inr resp)
    obtain p where p: "payload_of loads resp = Inr p" using payload_of_returns by blast
    show ?thesis
    proof (cases "py_truthy p")
      case False
      then show ?thesis
        by (simp add: classify_try_def classify_payload_try_def Pair Inr p scores_after_def
            scores_after_payload_def extract_score_empty_dict)
    next
      case True
      show ?thesis
      proof (cases "isinstance_dict p")
        case d: True
        show ?thesis
        proof (cases "extract_score p")
          case (Inl e)
          then show ?thesis
            by (simp add: classify_try_def classify_payload_try_def Pair Inr p True d
                scores_after_def scores_after_payload_def)
        next
          case s: (Inr s)
          then show ?thesis
            by (cases s) (simp_all add: classify_try_def classify_payload_try_def Pair Inr p
                True d scores_after_def scores_after_payload_def)
        qed
      next
        case nd: False
        from extract_score_non_dict [OF nd] show ?thesis
          by (auto simp: classify_try_def classify_payload_try_def Pair Inr p True nd
              scores_after_def scores_after_payload_def)
      qed
    qed
  qed
qed

lemma loop_same_scores:
  "classify_loop loads h sid models scores w =
     (fst (fst (classify_payload_loop loads h sid models scores payloads w)),
      snd (classify_payload_loop loads h sid models scores payloads w))"
proof (induction models arbitrary: scores payloads w)
  case Nil
  show ?case by simp
next
  case (Cons a models)
  obtain name model_id where a: "a = (name, model_id)" by (cases a)
  show ?case
  proof (cases model_id)
    case None
    then show ?thesis using Cons.IH [of scores w payloads] by (simp add: a)
  next
    case (Some m)
    show ?thesis
    proof (cases "m = []")
      case True
      then show ?thesis using Cons.IH [of scores w payloads] by (simp add: a Some)
    next
      case False
      obtain r w1 where t: "classify_try loads h sid name m scores w = (r, w1)"
        by (cases "classify_try loads h sid name m scores w")
      obtain r' w2 where t': "classify_payload_try loads h sid name m scores payloads w = (r', w2)"
        by (cases "classify_payload_try loads h sid name m scores payloads w")
      from try_same_scores [of scores loads h sid name m w payloads]
      have same: "scores_after scores r = scores_after_payload scores r'" and w: "w1 = w2"
        by (simp_all add: t t')
      show ?thesis
      proof (cases r')
        case (Inl e')
        have "classify_loop loads h sid (a # models) scores w =
            classify_loop loads h sid models (scores_after scores r) w1"
          by (cases r) (simp_all add: a Some False t scores_after_def)
        also have "\<dots> = classify_loop loads h sid models scores w2"
          using same by (simp add: Inl scores_after_payload_def w)
        finally show ?thesis
          using Cons.IH [of scores w2 "AList.update name (PDict [(''error'', PStr (exn_str e'))]) payloads"]
          by (simp add: a Some False t' Inl)
      next
        case (Inr sp)
        obtain s' p' where sp: "sp = (s', p')" by (cases sp)
        have "classify_loop loads h sid (a # models) scores w =
            classify_loop loads h sid models (scores_after scores r) w1"
          by (cases r) (simp_all add: a Some False t scores_after_def)
        also have "\<dots> = classify_loop loads h sid models s' w2"
          using same by (simp add: Inr sp scores_after_payload_def w)
        finally show ?thesis
          using Cons.IH [of s' w2 p'] by (simp add: a Some False t' Inr sp)
      qed
    qed
  qed
qed

text \<open>
  C9. The plain and the payload-keeping classifier run return the same scores (or raise
  the same exception of \<^verbatim>\<open>get_hoppr\<close>) and leave the world in the same state, whatever
  the remote model call does.
\<close>

theorem run_classifiers_same_scores:
  "run_classifiers loads client sid models w =
     (case run_classifiers_with_payload loads client sid models w of
        (Inl e, w') \<Rightarrow> (Inl e, w')
      | (Inr (scores, payloads), w') \<Rightarrow> (Inr scores, w'))"
proof (cases client)
  case (Inl e)
  then show ?thesis by (simp add: run_classifiers_def run_classifiers_with_payload_def)
next
  case (Inr h)
  show ?thesis
    by (simp add: run_classifiers_def run_classifiers_with_payload_def Inr
        loop_same_scores [of loads h sid models "[]" w "[]"] split: prod.splits)
qed

lemma run_classifiers_returns:
  "\<exists>scores w'. run_classifiers loads (Inr h) sid models w = (Inr scores, w')"
  by (cases "classify_loop loads h sid models [] w") (simp add: run_classifiers_def)

lemma vlm_try_text:
  assumes "prompt_model h (vlm_call sid) w = (Inr resp, w')" and "payload_of loads resp = Inr p"
  shows "vlm_try loads h sid w =
    (Inr (PStr (case findings_text p of Some s \<Rightarrow> s | None \<Rightarrow> '''')), w')"
proof (cases p)
  case (PDict d)
  show ?thesis
    using assms
    by (simp add: vlm_try_def PDict key_isinstance_dict
        split: option.splits pyval.splits)
qed (use assms in \<open>simp_all add: vlm_try_def\<close>)

lemma run_vlm_raise:
  "prompt_model h (vlm_call sid) w = (Inl e, w') \<Longrightarrow>
   run_vlm loads (Inr h) sid w = (Inr (PStr ''''), w')"
  by (simp add: run_vlm_def vlm_try_def)

lemma run_vlm_reply:
  assumes "prompt_model h (vlm_call sid) w = (Inr resp, w')" and "payload_of loads resp = Inr p"
  shows "run_vlm loads (Inr h) sid w =
    (Inr (PStr (case findings_text p of Some s \<Rightarrow> s | None \<Rightarrow> '''')), w')"
  by (simp add: run_vlm_def vlm_try_text [OF assms])

lemma run_vlm_returns: "\<exists>s w'. run_vlm loads (Inr h) sid w = (Inr (PStr s), w')"
proof (cases "prompt_model h (vlm_call sid) w")
  case (Pair r w')
  show ?thesis
  proof (cases r)
    case (Inl e)
    with Pair show ?thesis using run_vlm_raise [of h sid w e w' loads] by blast
  next
    case (Inr resp)
    obtain p where "payload_of loads resp = Inr p" using payload_of_returns by blast
    with Pair Inr show ?thesis using run_vlm_reply [of h sid w resp w' loads p] by blast
  qed
qed

lemma fixed_try:
  "classify_try loads (fixed_client f) sid name m scores w =
     (fst (classify_try loads (fixed_client f) sid name m scores w), w) \<and>
   scores_after scores (fst (classify_try loads (fixed_client f) sid name m scores w)) =
     (case finding_score loads (f (classifier_call sid m)) of
        Some x \<Rightarrow> AList.update name x scores | None \<Rightarrow> scores)"
proof (cases "f (classifier_call sid m)")
  case (Inl e)
  then show ?thesis
    by (simp add: classify_try_def fixed_client_def finding_score_def scores_after_def)
next
  case (Inr resp)
  obtain p where p: "payload_of loads resp = Inr p" using payload_of_returns by blast
  show ?thesis
  proof (cases "py_truthy p")
    case False
    then show ?thesis
      by (simp add: classify_try_def fixed_client_def finding_score_def scores_after_def Inr p)
  next
    case True
    show ?thesis
    proof (cases "extract_score p")
      case (Inl e)
      then show ?thesis
        by (simp add: classify_try_def fixed_client_def finding_score_def scores_after_def Inr p True)
    next
      case s: (Inr s)
      then show ?thesis
        by (cases s) (simp_all add: classify_try_def fixed_client_def finding_score_def
            scores_after_def Inr p True)
    qed
  qed
qed

lemma fixed_loop_step:
  "m \<noteq> [] \<Longrightarrow> classify_loop loads (fixed_client f) sid ((name, Some m) # rest) scores w =
     classify_loop loads (fixed_client f) sid rest
       (case finding_score loads (f (classifier_call sid m)) of
          Some x \<Rightarrow> AList.update name x scores | None \<Rightarrow> scores) w"
proof -
  assume m: "m \<noteq> []"
  obtain r where t: "classify_try loads (fixed_client f) sid name m scores w = (r, w)"
    using fixed_try [of loads f sid name m scores w] by metis
  have "scores_after scores r = (case finding_score loads (f (classifier_call sid m)) of
          Some x \<Rightarrow> AList.update name x scores | None \<Rightarrow> scores)"
    using fixed_try [of loads f sid name m scores w] by (simp add: t)
  then show ?thesis
    by (cases r) (simp_all add: m t scores_after_def)
qed

lemma fixed_loop_world: "snd (classify_loop loads (fixed_client f) sid models scores w) = w"
proof (induction models arbitrary: scores)
  case Nil
  show ?case by simp
next
  case (Cons a models)
  obtain name model_id where a: "a = (name, model_id)" by (cases a)
  show ?case
  proof (cases model_id)
    case None
    then show ?thesis using Cons.IH by (simp add: a)
  next
    case (Some m)
    show ?thesis
    proof (cases "m = []")
      case True
      then show ?thesis using Cons.IH by (simp add: a Some)
    next
      case False
      show ?thesis unfolding a Some fixed_loop_step [OF False] by (rule Cons.IH)
    qed
  qed
qed

lemma fixed_loop_scores:
  assumes "distinct (map fst models)"
  shows "map_of (fst (classify_loop loads (fixed_client f) sid models scores w)) name =
    (case map_of models name of
       Some (Some m) \<Rightarrow>
         if m = [] then map_of scores name
         else (case finding_score loads (f (classifier_call sid m)) of
                 Some x \<Rightarrow> Some x | None \<Rightarrow> map_of scores name)
     | _ \<Rightarrow> map_of scores name)"
  using assms
proof (induction models arbitrary: scores)
  case Nil
  show ?case by simp
next
  case (Cons a models)
  obtain n model_id where a: "a = (n, model_id)" by (cases a)
  from Cons.prems have d: "distinct (map fst models)" and n: "n \<notin> fst ` set models"
    by (simp_all add: a)
  from n have none: "map_of models n = None" by (simp add: map_of_eq_None_iff)
  note IH = Cons.IH [OF d]
  show ?case
  proof (cases model_id)
    case None
    show ?thesis
      using IH [of scores] none by (cases "name = n") (simp_all add: a None)
  next
    case (Some m)
    show ?thesis
    proof (cases "m = []")
      case True
      show ?thesis
        using IH [of scores] none by (cases "name = n") (simp_all add: a Some True)
    next
      case False
      show ?thesis
      proof (cases "finding_score loads (f (classifier_call sid m))")
        case fs: None
        have step: "classify_loop loads (fixed_client f) sid (a # models) scores w =
            classify_loop loads (fixed_client f) sid models scores w"
          unfolding a Some using fixed_loop_step [OF False, of loads f sid n models scores w]
          by (simp add: fs)
        show ?thesis
          unfolding step using IH [of scores] none
          by (cases "name = n") (simp_all add: a Some False fs)
      next
        case fs: (Some x)
        have step: "classify_loop loads (fixed_client f) sid (a # models) scores w =
            classify_loop loads (fixed_client f) sid models (AList.update n x scores) w"
          unfolding a Some using fixed_loop_step [OF False, of loads f sid n models scores w]
          by (simp add: fs)
        show ?thesis
          unfolding step using IH [of "AList.update n x scores"] none
          by (cases "name = n") (simp_all add: a Some False fs update_conv' split: option.splits)
      qed
    qed
  qed
qed


lemma sample_replies:
  "sample_service (classifier_call sid ''m_atelectasis'') =
     Inl (OtherException ''HOPPRError'' ''model unavailable'')"
  "sample_service (classifier_call sid ''m_cardiomegaly'') = Inr (PStr ''<html>busy</html>'')"
  "sample_service (classifier_call sid ''m_pneumothorax'') =
     Inr (PObj [(''response'', PDict [(''score'', PFloat 0.9)])])"
  "sample_service (classifier_call sid ''m_effusion'') = Inr (PDict [(''label'', PStr ''effusion'')])"
  by (simp_all add: sample_service_def classifier_call_def)

lemma sample_run_classifiers:
  "run_classifiers loads_literals (Inr (fixed_client sample_service)) ''study-1'' sample_models ()
     = (Inr [(''Pneumothorax'', 0.9)], ())"
  by (simp add: run_classifiers_def sample_models_def fixed_client_def classify_try_def
      sample_replies payload_of_def to_dict_eqs loads_literals_def extract_score_dict_cases
      numeric_field_def)

lemma sample_run_vlm:
  "run_vlm loads_literals (Inr (fixed_client sample_service)) ''study-1'' ()
     = (Inr (PStr ''Small right pneumothorax.''), ())"
  by (simp add: run_vlm_def vlm_try_def fixed_client_def sample_service_def vlm_call_def
      VLM_MODEL_ID_def payload_of_def to_dict_eqs key_isinstance_dict)

text \<open>
  C6. Per-model failures are not fatal. With a client at hand and whatever the remote
  model call does, \<^verbatim>\<open>run_classifiers\<close> returns a score map and \<^verbatim>\<open>run_vlm\<close> returns a
  string. When the behaviour of the model call is fixed and the model table is a dict
  (its keys are distinct), the entry of each finding in the score map is decided by the
  reply to its own call alone: it is absent when the finding has no model, when the call
  raises, when the reply has no dict payload, or when the payload yields no score.
  \<^verbatim>\<open>run_vlm\<close> returns the empty string when its call raises and when the payload holds no
  findings text.
\<close>

theorem per_model_failures_nonfatal:
  fixes h :: "'w hoppr" and w :: 'w
  shows
    "(\<exists>scores w'. run_classifiers loads (Inr h) sid models w = (Inr scores, w')) \<and>
     (\<exists>s w'. run_vlm loads (Inr h) sid w = (Inr (PStr s), w')) \<and>
     (distinct (map fst models) \<longrightarrow>
        (\<exists>scores. run_classifiers loads (Inr (fixed_client f)) sid models w = (Inr scores, w) \<and>
           (\<forall>name. map_of scores name =
              (case map_of models name of
                 Some (Some m) \<Rightarrow>
                   if m = [] then None else finding_score loads (f (classifier_call sid m))
               | _ \<Rightarrow> None)))) \<and>
     finding_score loads (Inl e) = None \<and>
     (payload_of loads resp = Inr p \<and> \<not> isinstance_dict p \<longrightarrow>
        finding_score loads (Inr resp) = None) \<and>
     (payload_of loads resp = Inr p \<and> extract_score p = Inr None \<longrightarrow>
        finding_score loads (Inr resp) = None) \<and>
     (prompt_model h (vlm_call sid) w = (Inl e, w1) \<longrightarrow>
        run_vlm loads (Inr h) sid w = (Inr (PStr ''''), w1)) \<and>
     (prompt_model h (vlm_call sid) w = (Inr resp, w1) \<and> payload_of loads resp = Inr p \<and>
      findings_text p = None \<longrightarrow>
        run_vlm loads (Inr h) sid w = (Inr (PStr ''''), w1))"
proof (intro conjI impI)
  show "\<exists>scores w'. run_classifiers loads (Inr h) sid models w = (Inr scores, w')"
    by (rule run_classifiers_returns)
next
  show "\<exists>s w'. run_vlm loads (Inr h) sid w = (Inr (PStr s), w')"
    by (rule run_vlm_returns)
next
  assume d: "distinct (map fst models)"
  let ?r = "classify_loop loads (fixed_client f) sid models [] w"
  have "run_classifiers loads (Inr (fixed_client f)) sid models w = (Inr (fst ?r), w)"
    using fixed_loop_world [of loads f sid models "[]" w]
    by (cases ?r) (simp add: run_classifiers_def)
  moreover have "\<forall>name. map_of (fst ?r) name =
      (case map_of models name of
         Some (Some m) \<Rightarrow>
           if m = [] then None else finding_score loads (f (classifier_call sid m))
       | _ \<Rightarrow> None)"
    by (simp add: fixed_loop_scores [OF d] split: option.splits)
  ultimately show "\<exists>scores. run_classifiers loads (Inr (fixed_client f)) sid models w = (Inr scores, w) \<and>
           (\<forall>name. map_of scores name =
              (case map_of models name of
                 Some (Some m) \<Rightarrow>
                   if m = [] then None else finding_score loads (f (classifier_call sid m))
               | _ \<Rightarrow> None))"
    by blast
next
  show "finding_score loads (Inl e) = None" by (simp add: finding_score_def)
next
  assume a: "payload_of loads resp = Inr p \<and> \<not> isinstance_dict p"
  then have "(\<exists>e. extract_score p = Inl e) \<or> extract_score p = Inr None"
    using extract_score_non_dict by blast
  with a show "finding_score loads (Inr resp) = None"
    by (auto simp: finding_score_def)
next
  assume "payload_of loads resp = Inr p \<and> extract_score p = Inr None"
  then show "finding_score loads (Inr resp) = None"
    by (simp add: finding_score_def)
next
  assume "prompt_model h (vlm_call sid) w = (Inl e, w1)"
  then show "run_vlm loads (Inr h) sid w = (Inr (PStr ''''), w1)"
    by (rule run_vlm_raise)
next
  assume "prompt_model h (vlm_call sid) w = (Inr resp, w1) \<and> payload_of loads resp = Inr p \<and>
      findings_text p = None"
  then show "run_vlm loads (Inr h) sid w = (Inr (PStr ''''), w1)"
    using run_vlm_reply [of h sid w resp w1 loads p] by simp
qed

theorem per_model_failures_nonfatal_witness:
  "run_classifiers loads_literals (Inr (fixed_client sample_service)) ''study-1'' sample_models ()
     = (Inr [(''Pneumothorax'', 0.9)], ()) \<and>
   finding_score loads_literals
       (sample_service (classifier_call ''study-1'' ''m_pneumothorax'')) = Some 0.9 \<and>
   finding_score loads_literals
       (sample_service (classifier_call ''study-1'' ''m_atelectasis'')) = None \<and>
   finding_score loads_literals (Inr (PStr ''<html>busy</html>'')) = None \<and>
   finding_score loads_literals (Inr (PDict [(''label'', PStr ''effusion'')])) = None \<and>
   run_vlm loads_literals (Inr (fixed_client sample_service)) ''study-1'' ()
     = (Inr (PStr ''Small right pneumothorax.''), ()) \<and>
   run_vlm loads_literals
       (Inr (fixed_client (\<lambda>c. Inl (OtherException ''HOPPRError'' ''timeout'')))) ''study-1'' ()
     = (Inr (PStr ''''), ()) \<and>
   run_vlm loads_literals
       (Inr (fixed_client (\<lambda>c. Inr (PDict [(''label'', PStr ''effusion'')])))) ''study-1'' ()
     = (Inr (PStr ''''), ())"
proof -
  let ?raising = "fixed_client (\<lambda>c. Inl (OtherException ''HOPPRError'' ''timeout'')) :: unit hoppr"
  let ?silent = "fixed_client (\<lambda>c. Inr (PDict [(''label'', PStr ''effusion'')])) :: unit hoppr"
  have p1: "payload_of loads_literals (PStr ''<html>busy</html>'') = Inr PNone"
    by (simp add: payload_of_def to_dict_eqs loads_literals_def)
  have p2: "payload_of loads_literals (PDict [(''label'', PStr ''effusion'')]) =
      Inr (PDict [(''label'', PStr ''effusion'')])"
    by (simp add: payload_of_def to_dict_eqs)
  have x2: "extract_score (PDict [(''label'', PStr ''effusion'')]) = Inr None"
    by (simp add: extract_score_dict_cases numeric_field_def)
  have d: "distinct (map fst sample_models)"
    by (simp add: sample_models_def)
  have "\<exists>scores.
      run_classifiers loads_literals (Inr (fixed_client sample_service)) ''study-1''
        sample_models () = (Inr scores, ()) \<and>
      (\<forall>name. map_of scores name =
         (case map_of sample_models name of
            Some (Some m) \<Rightarrow>
              if m = [] then None
              else finding_score loads_literals (sample_service (classifier_call ''study-1'' m))
          | _ \<Rightarrow> None))"
    using per_model_failures_nonfatal [where loads = loads_literals and models = sample_models
        and f = sample_service and sid = "''study-1''" and w = "()" and h = ?raising] d
    by blast
  then have all: "\<forall>name. map_of [(''Pneumothorax'', 0.9::real)] name =
      (case map_of sample_models name of
         Some (Some m) \<Rightarrow>
           if m = [] then None
           else finding_score loads_literals (sample_service (classifier_call ''study-1'' m))
       | _ \<Rightarrow> None)"
    by (simp add: sample_run_classifiers)
  have "finding_score loads_literals
      (sample_service (classifier_call ''study-1'' ''m_pneumothorax'')) = Some 0.9"
    using all [rule_format, of "''Pneumothorax''"] by (simp add: sample_models_def)
  moreover have "finding_score loads_literals
      (sample_service (classifier_call ''study-1'' ''m_atelectasis'')) = None"
    using all [rule_format, of "''Atelectasis''"] by (simp add: sample_models_def)
  moreover have "finding_score loads_literals (Inr (PStr ''<html>busy</html>'')) = None"
    using per_model_failures_nonfatal [where loads = loads_literals
        and resp = "PStr ''<html>busy</html>''" and p = PNone and h = ?raising] p1
    by simp
  moreover have "finding_score loads_literals (Inr (PDict [(''label'', PStr ''effusion'')])) = None"
    using per_model_failures_nonfatal [where loads = loads_literals
        and resp = "PDict [(''label'', PStr ''effusion'')]"
        and p = "PDict [(''label'', PStr ''effusion'')]" and h = ?raising] p2 x2
    by simp
  moreover have "run_vlm loads_literals (Inr ?raising) ''study-1'' () = (Inr (PStr ''''), ())"
    using per_model_failures_nonfatal [where loads = loads_literals and h = ?raising
        and sid = "''study-1''" and w = "()" and ?w1.0 = "()"
        and e = "OtherException ''HOPPRError'' ''timeout''"]
    by (simp add: fixed_client_def)
  moreover have "run_vlm loads_literals (Inr ?silent) ''study-1'' () = (Inr (PStr ''''), ())"
    using per_model_failures_nonfatal [where loads = loads_literals and h = ?silent
        and sid = "''study-1''" and w = "()" and ?w1.0 = "()"
        and resp = "PDict [(''label'', PStr ''effusion'')]"
        and p = "PDict [(''label'', PStr ''effusion'')]"] p2
    by (simp add: fixed_client_def)
  ultimately show ?thesis
    by (simp add: sample_run_classifiers sample_run_vlm)
qed

text \<open>
  C9 on the sample service: both runs score Pneumothorax alone; the payload-keeping run
  also records what each call gave.
\<close>

theorem run_classifiers_same_scores_witness:
  "run_classifiers loads_literals (Inr (fixed_client sample_service)) ''study-1'' sample_models ()
     = (Inr [(''Pneumothorax'', 0.9)], ()) \<and>
   run_classifiers_with_payload loads_literals (Inr (fixed_client sample_service)) ''study-1''
       sample_models ()
     = (Inr ([(''Pneumothorax'', 0.9)],
             [(''Atelectasis'', PDict [(''error'', PStr ''model unavailable'')]),
              (''Cardiomegaly'', PDict [(''note'', PStr ''empty or unparsable payload'')]),
              (''Pneumothorax'', PDict [(''score'', PFloat 0.9)]),
              (''Pleural Effusion'', PDict [(''label'', PStr ''effusion'')])]), ())"
  using run_classifiers_same_scores [of loads_literals "Inr (fixed_client sample_service)"
      "''study-1''" sample_models "()"]
  by (simp add: run_classifiers_with_payload_def sample_models_def fixed_client_def
      classify_payload_try_def sample_replies payload_of_def to_dict_eqs loads_literals_def
      extract_score_dict_cases numeric_field_def)

section \<open>Properties of the keyword highlighter\<close>

lemma first_char_word: "word_char_opt (first_char t) \<longleftrightarrow> t \<noteq> [] \<and> is_word_char (hd t)"
  by (cases t) simp_all

lemma match_here_iff:
  assumes k: "k \<noteq> []" "is_word_char (hd k)" "is_word_char (last k)"
  shows "match_here prev k t \<longleftrightarrow>
    \<not> word_char_opt prev \<and> (\<exists>post. t = k @ post \<and> (post = [] \<or> \<not> is_word_char (hd post)))"
proof
  assume m: "match_here prev k t"
  then obtain post where t: "t = k @ post" by (auto simp: match_here_def prefix_def)
  have hd: "hd t = hd k" "t \<noteq> []" using k t by simp_all
  from m have "\<not> word_char_opt prev"
    using k hd by (simp add: match_here_def word_boundary_def first_char_word)
  moreover from m have "post = [] \<or> \<not> is_word_char (hd post)"
    using k by (auto simp: match_here_def word_boundary_def first_char_word t)
  ultimately show "\<not> word_char_opt prev \<and>
      (\<exists>post. t = k @ post \<and> (post = [] \<or> \<not> is_word_char (hd post)))"
    using t by blast
next
  assume "\<not> word_char_opt prev \<and>
      (\<exists>post. t = k @ post \<and> (post = [] \<or> \<not> is_word_char (hd post)))"
  then obtain post where p: "\<not> word_char_opt prev" and t: "t = k @ post"
    and e: "post = [] \<or> \<not> is_word_char (hd post)" by blast
  have "word_char_opt (first_char t)" using k t by (simp add: first_char_word)
  moreover have "\<not> word_char_opt (first_char post)" using e by (auto simp: first_char_word)
  ultimately show "match_here prev k t"
    using k p by (simp add: match_here_def word_boundary_def t)
qed

lemma search_from_iff:
  assumes k: "k \<noteq> []" "is_word_char (hd k)" "is_word_char (last k)"
  shows "search_from prev k t \<longleftrightarrow>
    (\<exists>pre post. t = pre @ k @ post \<and>
       \<not> word_char_opt (if pre = [] then prev else Some (last pre)) \<and>
       (post = [] \<or> \<not> is_word_char (hd post)))"
proof (induction t arbitrary: prev)
  case Nil
  show ?case using k by (simp add: match_here_iff [OF k])
next
  case (Cons c cs)
  show ?case
  proof
    assume "search_from prev k (c # cs)"
    then consider "match_here prev k (c # cs)" | "search_from (Some c) k cs" by auto
    then show "\<exists>pre post. c # cs = pre @ k @ post \<and>
       \<not> word_char_opt (if pre = [] then prev else Some (last pre)) \<and>
       (post = [] \<or> \<not> is_word_char (hd post))"
    proof cases
      case 1
      then obtain post where "\<not> word_char_opt prev" "c # cs = k @ post"
        "post = [] \<or> \<not> is_word_char (hd post)"
        by (auto simp: match_here_iff [OF k])
      then have "c # cs = [] @ k @ post \<and>
          \<not> word_char_opt (if [] = ([]::string) then prev else Some (last [])) \<and>
          (post = [] \<or> \<not> is_word_char (hd post))" by simp
      then show ?thesis by blast
    next
      case 2
      then obtain pre post where cs: "cs = pre @ k @ post"
        and b: "\<not> word_char_opt (if pre = [] then Some c else Some (last pre))"
        and e: "post = [] \<or> \<not> is_word_char (hd post)"
        using Cons.IH [of "Some c"] by blast
      have "c # cs = (c # pre) @ k @ post \<and>
          \<not> word_char_opt (if c # pre = [] then prev else Some (last (c # pre))) \<and>
          (post = [] \<or> \<not> is_word_char (hd post))"
        using cs b e by (cases "pre = []") simp_all
      then show ?thesis by blast
    qed
  next
    assume "\<exists>pre post. c # cs = pre @ k @ post \<and>
       \<not> word_char_opt (if pre = [] then prev else Some (last pre)) \<and>
       (post = [] \<or> \<not> is_word_char (hd post))"
    then obtain pre post where t: "c # cs = pre @ k @ post"
      and b: "\<not> word_char_opt (if pre = [] then prev else Some (last pre))"
      and e: "post = [] \<or> \<not> is_word_char (hd post)" by blast
    show "search_from prev k (c # cs)"
    proof (cases pre)
      case Nil
      then have "match_here prev k (c # cs)"
        using t b e by (auto simp: match_here_iff [OF k])
      then show ?thesis by simp
    next
      case (Cons a pre')
      then have cs: "cs = pre' @ k @ post" and a: "a = c" using t by simp_all
      have "\<not> word_char_opt (if pre' = [] then Some c else Some (last pre'))"
        using b by (cases "pre' = []") (simp_all add: Cons a)
      then have "search_from (Some c) k cs"
        using Cons.IH [of "Some c"] cs e by blast
      then show ?thesis by simp
    qed
  qed
qed

lemma re_search_word_iff:
  assumes k: "k \<noteq> []" "is_word_char (hd k)" "is_word_char (last k)"
  shows "re_search_word k s \<longleftrightarrow> word_match k s"
proof -
  have "(\<not> word_char_opt (if pre = [] then None else Some (last pre))) \<longleftrightarrow>
      (pre = [] \<or> \<not> is_word_char (last pre))" for pre :: string
    by simp
  then show ?thesis
    by (simp add: re_search_word_def search_from_iff [OF k] word_match_def)
qed

lemma keywords_shape:
  "k \<in> set KEYWORDS \<Longrightarrow> k \<noteq> [] \<and> is_word_char (hd k) \<and> is_word_char (last k)"
  by (auto simp: KEYWORDS_def is_word_char_def)

lemma py_lower_Nil_iff: "py_lower t = [] \<longleftrightarrow> t = []"
  by (simp add: py_lower_def)

lemma not_word_match_Nil: "k \<noteq> [] \<Longrightarrow> \<not> word_match k []"
  by (simp add: word_match_def)

lemma extract_keywords_set:
  "set (extract_keywords t) = {k \<in> set KEYWORDS. word_match k (py_lower t)}"
proof (cases "t = []")
  case True
  then show ?thesis
    using keywords_shape not_word_match_Nil by (auto simp: extract_keywords_def py_lower_def)
next
  case False
  then show ?thesis
    using keywords_shape re_search_word_iff by (auto simp: extract_keywords_def Let_def)
qed

lemma extract_keywords_sorted: "sorted (extract_keywords t) \<and> distinct (extract_keywords t)"
  by (simp add: extract_keywords_def Let_def)

lemma extract_keywords_case: "py_lower t = py_lower t' \<Longrightarrow> extract_keywords t = extract_keywords t'"
  using py_lower_Nil_iff [of t] py_lower_Nil_iff [of t']
  by (simp add: extract_keywords_def)


lemma extract_keywords_example:
  "extract_keywords ''Findings consistent with pneumothorax and pleural effusion.'' =
     [''effusion'', ''pneumothorax'']"
  by code_simp

text \<open>
  C8. The highlighter returns nothing on the empty narrative; otherwise it returns the
  keywords of the fixed vocabulary that occur as whole words in the lower-cased
  narrative, each once, in ascending order. Narratives that differ in letter case only
  give the same result. On the narrative of the specification the result is effusion,
  pneumothorax.
\<close>

theorem extract_keywords_spec:
  "extract_keywords [] = [] \<and>
   set (extract_keywords t) = {k \<in> set KEYWORDS. word_match k (py_lower t)} \<and>
   sorted (extract_keywords t) \<and> distinct (extract_keywords t) \<and>
   (py_lower t = py_lower t' \<longrightarrow> extract_keywords t = extract_keywords t') \<and>
   extract_keywords ''Findings consistent with pneumothorax and pleural effusion.'' =
     [''effusion'', ''pneumothorax'']"
  using extract_keywords_set [of t] extract_keywords_sorted [of t]
    extract_keywords_case [of t t'] extract_keywords_example
  by (simp add: extract_keywords_def)

theorem extract_keywords_spec_witness:
  "extract_keywords ''Small Pneumothorax'' = extract_keywords ''small pneumothorax'' \<and>
   extract_keywords ''Findings consistent with pneumothorax and pleural effusion.'' =
     [''effusion'', ''pneumothorax'']"
proof -
  have "py_lower ''Small Pneumothorax'' = py_lower ''small pneumothorax''"
    by code_simp
  then show ?thesis
    using extract_keywords_spec [of "''Small Pneumothorax''" "''small pneumothorax''"]
    by blast
qed

section \<open>Properties of the urgency score\<close>

lemma py_max_from_fold: "py_max_from m xs = fold max xs m"
proof (induction xs arbitrary: m)
  case Nil
  show ?case by simp
next
  case (Cons x xs)
  have "(if m < x then x else m) = max x m" by (simp add: max_def)
  with Cons.IH [of "if m < x then x else m"] show ?case by simp
qed

lemma py_max_from_Max: "py_max_from m xs = Max (insert m (set xs))"
  using Max.set_eq_fold [of m xs] by (simp add: py_max_from_fold)

lemma compute_urgency_Max:
  assumes "scores \<noteq> []"
  shows "compute_urgency scores = Max ((\<lambda>(k, v). weight k * v) ` set scores)"
proof -
  obtain p ps where sc: "scores = p # ps" using assms by (cases scores) auto
  show ?thesis
    by (simp add: compute_urgency_def sc py_max_from_Max weight_def [abs_def])
qed

lemma weighted_image_split:
  "(\<lambda>(k, v). weight k * v) ` set scores =
     (\<lambda>v. 1.25 * v) ` set (critical_scores scores) \<union> set (noncritical_scores scores)"
  (is "?L = ?R")
proof (rule set_eqI)
  fix y
  show "y \<in> ?L \<longleftrightarrow> y \<in> ?R"
  proof
    assume "y \<in> ?L"
    then obtain k v where kv: "(k, v) \<in> set scores" and y: "y = weight k * v"
      by (auto simp: image_iff split: prod.splits)
    show "y \<in> ?R"
    proof (cases "k \<in> CRITICAL_FINDINGS")
      case True
      then have "v \<in> set (critical_scores scores)"
        using kv unfolding critical_scores_def by force
      moreover have "y = 1.25 * v" using True y by (simp add: weight_def)
      ultimately show ?thesis by blast
    next
      case False
      then have "v \<in> set (noncritical_scores scores)"
        using kv unfolding noncritical_scores_def by force
      moreover have "y = v" using False y by (simp add: weight_def)
      ultimately show ?thesis by blast
    qed
  next
    assume "y \<in> ?R"
    then consider v where "v \<in> set (critical_scores scores)" "y = 1.25 * v"
      | "y \<in> set (noncritical_scores scores)" by blast
    then show "y \<in> ?L"
    proof cases
      case 1
      then obtain k where "(k, v) \<in> set scores" "k \<in> CRITICAL_FINDINGS"
        unfolding critical_scores_def by auto
      then have "(k, v) \<in> set scores" "y = (case (k, v) of (k, v) \<Rightarrow> weight k * v)"
        using 1 by (simp_all add: weight_def)
      then show ?thesis by (rule rev_image_eqI)
    next
      case 2
      then obtain k where "(k, y) \<in> set scores" "k \<notin> CRITICAL_FINDINGS"
        unfolding noncritical_scores_def by auto
      then have "(k, y) \<in> set scores" "y = (case (k, y) of (k, v) \<Rightarrow> weight k * v)"
        by (simp_all add: weight_def)
      then show ?thesis by (rule rev_image_eqI)
    qed
  qed
qed

lemma Max_scaled:
  fixes C :: "real set"
  assumes "finite C" "C \<noteq> {}"
  shows "Max ((\<lambda>v. 1.25 * v) ` C) = 1.25 * Max C"
proof -
  have "mono (\<lambda>v::real. 1.25 * v)" by (rule monoI) simp
  from mono_Max_commute [OF this assms] show ?thesis by simp
qed

lemma compute_urgency_mixed:
  assumes c: "critical_scores scores \<noteq> []" and n: "noncritical_scores scores \<noteq> []"
  shows "compute_urgency scores =
    (if Max (set (noncritical_scores scores)) < 1.25 * Max (set (critical_scores scores))
     then 1.25 * Max (set (critical_scores scores)) else Max (set (noncritical_scores scores)))"
proof -
  have ne: "scores \<noteq> []" using c by (auto simp: critical_scores_def)
  have "compute_urgency scores =
      Max ((\<lambda>v. 1.25 * v) ` set (critical_scores scores) \<union> set (noncritical_scores scores))"
    by (simp add: compute_urgency_Max [OF ne] weighted_image_split)
  also have "\<dots> = max (Max ((\<lambda>v. 1.25 * v) ` set (critical_scores scores)))
                       (Max (set (noncritical_scores scores)))"
    by (rule Max_Un) (simp_all add: c n)
  also have "\<dots> = max (1.25 * Max (set (critical_scores scores)))
                       (Max (set (noncritical_scores scores)))"
  proof -
    have "Max ((\<lambda>v. 1.25 * v) ` set (critical_scores scores)) =
        1.25 * Max (set (critical_scores scores))"
      by (rule Max_scaled) (simp_all add: c)
    then show ?thesis by (rule arg_cong)
  qed
  finally show ?thesis by (simp add: max_def)
qed

text \<open>
  C1. Urgency is 0.0 on the empty score map and otherwise the largest weighted score, the
  weight being 1.25 for Pneumothorax and Pleural Effusion and 1.0 for every other finding.
  When the map holds a critical and a non-critical finding, urgency is 1.25 times the
  largest critical score if that exceeds the largest non-critical score, and the largest
  non-critical score otherwise (whatever the signs of the scores).
\<close>

theorem compute_urgency_weighted_max:
  "(scores = [] \<longrightarrow> compute_urgency scores = 0.0) \<and>
   (scores \<noteq> [] \<longrightarrow> compute_urgency scores =
      Max ((\<lambda>(k, v). (if k \<in> {''Pneumothorax'', ''Pleural Effusion''} then 1.25 else 1.0) * v)
            ` set scores)) \<and>
   (critical_scores scores \<noteq> [] \<and> noncritical_scores scores \<noteq> [] \<longrightarrow>
      compute_urgency scores =
        (if Max (set (noncritical_scores scores)) < 1.25 * Max (set (critical_scores scores))
         then 1.25 * Max (set (critical_scores scores))
         else Max (set (noncritical_scores scores))))"
proof (intro conjI impI)
  assume "scores = []"
  then show "compute_urgency scores = 0.0" by (simp add: compute_urgency_def)
next
  assume "scores \<noteq> []"
  from compute_urgency_Max [OF this]
  show "compute_urgency scores =
      Max ((\<lambda>(k, v). (if k \<in> {''Pneumothorax'', ''Pleural Effusion''} then 1.25 else 1.0) * v)
            ` set scores)"
    by (simp add: weight_def [abs_def] CRITICAL_FINDINGS_def)
next
  assume "critical_scores scores \<noteq> [] \<and> noncritical_scores scores \<noteq> []"
  then show "compute_urgency scores =
        (if Max (set (noncritical_scores scores)) < 1.25 * Max (set (critical_scores scores))
         then 1.25 * Max (set (critical_scores scores))
         else Max (set (noncritical_scores scores)))"
    using compute_urgency_mixed by blast
qed

theorem compute_urgency_weighted_max_witness:
  "compute_urgency [] = 0.0 \<and>
   compute_urgency [(''Pneumothorax'', 0.9), (''Cardiomegaly'', 0.95)] = 1.125 \<and>
   compute_urgency [(''Pneumothorax'', 0.5), (''Cardiomegaly'', 0.95)] = 0.95"
  using compute_urgency_weighted_max [of "[]"]
    compute_urgency_weighted_max [of "[(''Pneumothorax'', 0.9), (''Cardiomegaly'', 0.95)]"]
    compute_urgency_weighted_max [of "[(''Pneumothorax'', 0.5), (''Cardiomegaly'', 0.95)]"]
  by (simp add: critical_scores_def noncritical_scores_def CRITICAL_FINDINGS_def)


lemma weight_pos: "0 < weight k"
  by (simp add: weight_def)

text \<open>
  C2. Urgency is claimed to be 0.0 only for the empty score map. A map whose only score
  is 0.0 has urgency 0.0 as well.
\<close>

theorem compute_urgency_zero_counterexample:
  "compute_urgency [(''Cardiomegaly'', 0.0)] = 0.0 \<and> [(''Cardiomegaly'', 0.0::real)] \<noteq> []"
  by (simp add: compute_urgency_def CRITICAL_FINDINGS_def)

text \<open>
  C2, as the code has it: urgency is 0.0 exactly when the score map is empty or its
  largest score is 0.0.
\<close>

theorem compute_urgency_zero_iff:
  "compute_urgency scores = 0.0 \<longleftrightarrow> scores = [] \<or> Max (snd ` set scores) = 0.0"
proof (cases "scores = []")
  case True
  then show ?thesis by (simp add: compute_urgency_def)
next
  case False
  let ?W = "(\<lambda>(k, v). weight k * v) ` set scores"
  let ?V = "snd ` set scores"
  have W: "finite ?W" "?W \<noteq> {}" and V: "finite ?V" "?V \<noteq> {}" using False by simp_all
  have z: "weight k * v = 0 \<longleftrightarrow> v = 0" for k v
    using weight_pos [of k] by simp
  have l: "weight k * v \<le> 0 \<longleftrightarrow> v \<le> 0" for k v
    using weight_pos [of k] by (simp add: mult_le_0_iff)
  have zero: "0 \<in> ?W \<longleftrightarrow> 0 \<in> ?V"
  proof
    assume "0 \<in> ?W"
    then obtain k v where "(k, v) \<in> set scores" "weight k * v = 0" by auto
    then have "(k, v) \<in> set scores" "v = 0" using z [of k v] by blast+
    then show "0 \<in> ?V" by force
  next
    assume "0 \<in> ?V"
    then obtain k where "(k, 0) \<in> set scores" by auto
    then have "(k, 0) \<in> set scores" "0 = (case (k, 0::real) of (k, v) \<Rightarrow> weight k * v)"
      by simp_all
    then show "0 \<in> ?W" by (rule rev_image_eqI)
  qed
  have le: "(\<forall>a\<in>?W. a \<le> 0) \<longleftrightarrow> (\<forall>a\<in>?V. a \<le> 0)"
  proof -
    have "(\<forall>a\<in>?W. a \<le> 0) \<longleftrightarrow> (\<forall>(k, v)\<in>set scores. weight k * v \<le> 0)"
      by (simp add: split_def)
    also have "\<dots> \<longleftrightarrow> (\<forall>(k, v)\<in>set scores. v \<le> 0)" by (simp only: l)
    also have "\<dots> \<longleftrightarrow> (\<forall>a\<in>?V. a \<le> 0)" by (simp add: split_def)
    finally show ?thesis .
  qed
  have "compute_urgency scores = 0 \<longleftrightarrow> Max ?W = 0"
    by (simp add: compute_urgency_Max [OF False])
  also have "\<dots> \<longleftrightarrow> 0 \<in> ?W \<and> (\<forall>a\<in>?W. a \<le> 0)" by (rule Max_eq_iff [OF W])
  also have "\<dots> \<longleftrightarrow> 0 \<in> ?V \<and> (\<forall>a\<in>?V. a \<le> 0)" by (simp only: zero le)
  also have "\<dots> \<longleftrightarrow> Max ?V = 0" by (rule Max_eq_iff [OF V, symmetric])
  finally show ?thesis using False by simp
qed

theorem compute_urgency_zero_iff_witness:
  "compute_urgency [] = 0.0 \<and>
   compute_urgency [(''Cardiomegaly'', 0.0), (''Pneumothorax'', 0.0)] = 0.0 \<and>
   compute_urgency [(''Cardiomegaly'', 0.2), (''Pneumothorax'', 0.0)] \<noteq> 0.0"
  using compute_urgency_zero_iff [of "[]"]
    compute_urgency_zero_iff [of "[(''Cardiomegaly'', 0.0), (''Pneumothorax'', 0.0)]"]
    compute_urgency_zero_iff [of "[(''Cardiomegaly'', 0.2), (''Pneumothorax'', 0.0)]"]
  by simp

end
